theory Spec2Isabelle
  imports Main
begin

section \<open>Connection attempt policy (autoconnsettingspolicy.cpp)\<close>

subsection \<open>Data model\<close>

text \<open>
  Modelled from the spec: the \<open>PROTOCOL\<close> class is declared in a header that is not part of
  the sources. The constructors are the enumeration of the data model (OpenVPN-UDP,
  OpenVPN-TCP, IKEv2, WireGuard, stunnel, wstunnel) together with \<open>UNINITIALIZED\<close>, the value
  of a default-constructed \<open>PROTOCOL\<close> that the constructor of the policy compares against.
\<close>

datatype PROTOCOL =
  UNINITIALIZED | IKEV2 | OPENVPN_UDP | OPENVPN_TCP | STUNNEL | WSTUNNEL | WIREGUARD

text \<open>
  Modelled from the spec: \<open>PROTOCOL::isIkev2Protocol\<close>, the derived predicate "is IKEv2" of
  the data model; its body is in the missing header.
\<close>

definition isIkev2Protocol :: "PROTOCOL \<Rightarrow> bool" where
  "isIkev2Protocol p = (p = IKEV2)"

text \<open>
  \<open>types::PortItem\<close>: the constructor reads the fields \<open>protocol\<close> and \<open>ports\<close> of an
  entry of \<open>portMap_.items()\<close>.
\<close>

record PortItem =
  item_protocol :: PROTOCOL
  item_ports :: "nat list"

text \<open>\<open>AttemptInfo\<close>, with the three fields the constructor assigns.\<close>

record AttemptInfo =
  protocol :: PROTOCOL
  portMapInd :: nat
  changeNode :: bool

text \<open>
  The state of the process outside the policy object: the static member
  \<open>failedIkev2Counter_\<close> and the key-value store behind \<open>QSettings\<close>. A stored value is
  the \<open>QString\<close> that the \<open>QDataStream\<close> wrote into the byte array.
\<close>

record globals =
  failedIkev2Counter :: int
  settings :: "string \<rightharpoonup> string"

text \<open>
  The members of \<open>AutoConnSettingsPolicy\<close>. \<open>bStarted_\<close> is inherited from the base class.
  \<open>selectNextNodeCalls\<close> counts the calls of \<open>locationInfo_->selectNextNode()\<close>, and
  \<open>nodesCount\<close> is what \<open>locationInfo_->nodesCount()\<close> returns (the size of the node
  vector of the location).
\<close>

record policy =
  attemps :: "AttemptInfo list"
  curAttempt :: nat
  bIsAllFailed :: bool
  isFailedIkev2CounterAlreadyIncremented :: bool
  portMap :: "PortItem list"
  bStarted :: bool
  nodesCount :: nat
  selectNextNodeCalls :: nat

subsection \<open>The constructor\<close>

text \<open>
  Lines 37-46: the protocol of the last successful connection, read from the settings;
  \<open>fromString\<close> is \<open>PROTOCOL::fromString\<close> of the missing header.
\<close>

definition readLastSuccessProtocol :: "(string \<Rightarrow> PROTOCOL) \<Rightarrow> (string \<rightharpoonup> string) \<Rightarrow> PROTOCOL" where
  "readLastSuccessProtocol fromString st =
     (case st ''successConnectionProtocol'' of
        None \<Rightarrow> UNINITIALIZED
      | Some strProtocol \<Rightarrow> fromString strProtocol)"

text \<open>
  Lines 49-70: the loop over \<open>portMapInd\<close>. The last argument is the part of
  \<open>portMap_.items()\<close> from \<open>portMapInd\<close> on; \<open>maxIkev2\<close> is the constant
  \<open>MAX_IKEV2_FAILED_ATTEMPTS\<close> of the missing header. \<open>WS_ASSERT\<close> is a diagnostic and
  does not change the attempts that are built.
\<close>

fun collectAttempts :: "bool \<Rightarrow> int \<Rightarrow> int \<Rightarrow> nat \<Rightarrow> PortItem list \<Rightarrow> AttemptInfo list" where
  "collectAttempts isProxyEnabled failed maxIkev2 ind [] = []"
| "collectAttempts isProxyEnabled failed maxIkev2 ind (it # rest) =
     (if isProxyEnabled \<and> item_protocol it = OPENVPN_UDP
        then collectAttempts isProxyEnabled failed maxIkev2 (Suc ind) rest
      else if failed \<ge> maxIkev2 \<and> isIkev2Protocol (item_protocol it)
        then collectAttempts isProxyEnabled failed maxIkev2 (Suc ind) rest
      else \<lparr>protocol = item_protocol it, portMapInd = ind, changeNode = False\<rparr>
             # collectAttempts isProxyEnabled failed maxIkev2 (Suc ind) rest)"

text \<open>Lines 72-75: \<open>localAttemps.last().changeNode = true\<close> on a non-empty vector.\<close>

definition markLast :: "AttemptInfo list \<Rightarrow> AttemptInfo list" where
  "markLast localAttemps =
     (if length localAttemps > 0
        then localAttemps[length localAttemps - 1 := (last localAttemps)\<lparr>changeNode := True\<rparr>]
      else localAttemps)"

text \<open>Lines 83-92: the index of the first attempt with the saved protocol.\<close>

fun findProtocol :: "PROTOCOL \<Rightarrow> nat \<Rightarrow> AttemptInfo list \<Rightarrow> nat option" where
  "findProtocol p i [] = None"
| "findProtocol p i (a # rest) =
     (if protocol a = p then Some i else findProtocol p (Suc i) rest)"

text \<open>\<open>QVector::remove(i)\<close> and \<open>QVector::insert(i, x)\<close>, for \<open>i\<close> within the vector.\<close>

definition removeAt :: "nat \<Rightarrow> 'a list \<Rightarrow> 'a list" where
  "removeAt i xs = take i xs @ drop (Suc i) xs"

definition insertAt :: "nat \<Rightarrow> 'a \<Rightarrow> 'a list \<Rightarrow> 'a list" where
  "insertAt i x xs = take i xs @ x # drop i xs"

text \<open>Lines 77-104: the saved protocol moves to the front, or behind a leading IKEv2.\<close>

definition moveLastSuccess :: "PROTOCOL \<Rightarrow> AttemptInfo list \<Rightarrow> AttemptInfo list" where
  "moveLastSuccess lastSuccessProtocolSaved localAttemps =
     (if lastSuccessProtocolSaved \<noteq> UNINITIALIZED then
        (case findProtocol lastSuccessProtocolSaved 0 localAttemps of
           None \<Rightarrow> localAttemps
         | Some i \<Rightarrow>
             (let firstAttemptInfo = localAttemps ! i;
                  removed = removeAt i localAttemps
              in if length removed > 0 \<and> isIkev2Protocol (protocol (hd removed))
                   then insertAt 1 firstAttemptInfo removed
                 else insertAt 0 firstAttemptInfo removed))
      else localAttemps)"

text \<open>Lines 106-110: \<open>attemps_ << localAttemps\<close> once for every node.\<close>

fun copyPerNode :: "nat \<Rightarrow> AttemptInfo list \<Rightarrow> AttemptInfo list \<Rightarrow> AttemptInfo list" where
  "copyPerNode 0 localAttemps acc = acc"
| "copyPerNode (Suc n) localAttemps acc = copyPerNode n localAttemps (acc @ localAttemps)"

text \<open>The attempts of one node, after the filter, the mark and the move.\<close>

definition localAttempsOf ::
  "PROTOCOL \<Rightarrow> bool \<Rightarrow> int \<Rightarrow> int \<Rightarrow> PortItem list \<Rightarrow> AttemptInfo list" where
  "localAttempsOf lastSuccessProtocolSaved isProxyEnabled failed maxIkev2 pm =
     moveLastSuccess lastSuccessProtocolSaved
       (markLast (collectAttempts isProxyEnabled failed maxIkev2 0 pm))"

text \<open>
  The whole constructor. \<open>nodes\<close> is \<open>locationInfo_->nodesCount()\<close>; line 113 appends
  \<open>attemps_\<close> to itself.
\<close>

definition AutoConnSettingsPolicy ::
  "(string \<Rightarrow> PROTOCOL) \<Rightarrow> int \<Rightarrow> globals \<Rightarrow> nat \<Rightarrow> PortItem list \<Rightarrow> bool \<Rightarrow> policy" where
  "AutoConnSettingsPolicy fromString maxIkev2 g nodes pm isProxyEnabled =
     (let lastSuccessProtocolSaved = readLastSuccessProtocol fromString (settings g);
          localAttemps = localAttempsOf lastSuccessProtocolSaved isProxyEnabled
                           (failedIkev2Counter g) maxIkev2 pm;
          perNode = copyPerNode nodes localAttemps []
      in \<lparr>attemps = perNode @ perNode,
          curAttempt = 0,
          bIsAllFailed = False,
          isFailedIkev2CounterAlreadyIncremented = False,
          portMap = pm,
          bStarted = False,
          nodesCount = nodes,
          selectNextNodeCalls = 0\<rparr>)"

subsection \<open>The operations of the policy\<close>

text \<open>\<open>reset\<close>, lines 116-120.\<close>

definition reset :: "policy \<Rightarrow> policy" where
  "reset s = s\<lparr>curAttempt := 0, bIsAllFailed := False\<rparr>"

text \<open>
  \<open>putFailedConnection\<close>, lines 128-153. \<open>attemps_[curAttempt_]\<close> outside the vector is
  the result \<open>None\<close>. The comparison of line 141 is on \<open>int\<close>, where \<open>count() - 1\<close> of an
  empty vector is \<open>-1\<close>.
\<close>

definition putFailedConnection :: "policy \<Rightarrow> globals \<Rightarrow> (policy \<times> globals) option" where
  "putFailedConnection s g =
     (if \<not> bStarted s then Some (s, g)
      else if curAttempt s \<ge> length (attemps s) then None
      else
        (let cur = attemps s ! curAttempt s;
             inc = (isIkev2Protocol (protocol cur) \<and> \<not> isFailedIkev2CounterAlreadyIncremented s);
             g1 = (if inc then g\<lparr>failedIkev2Counter := failedIkev2Counter g + 1\<rparr> else g);
             s1 = (if inc then s\<lparr>isFailedIkev2CounterAlreadyIncremented := True\<rparr> else s)
         in if int (curAttempt s1) < int (length (attemps s1)) - 1
              then Some ((if changeNode cur
                            then s1\<lparr>selectNextNodeCalls := selectNextNodeCalls s1 + 1\<rparr>
                          else s1)\<lparr>curAttempt := curAttempt s1 + 1\<rparr>, g1)
            else Some (s1\<lparr>bIsAllFailed := True\<rparr>, g1)))"

text \<open>\<open>isFailed\<close>, lines 155-162.\<close>

definition isFailed :: "policy \<Rightarrow> bool" where
  "isFailed s = (if \<not> bStarted s then False else bIsAllFailed s)"

text \<open>\<open>putFailedConnection\<close> called \<open>k\<close> times in a row.\<close>

fun putFailedN :: "nat \<Rightarrow> policy \<Rightarrow> globals \<Rightarrow> (policy \<times> globals) option" where
  "putFailedN 0 s g = Some (s, g)"
| "putFailedN (Suc k) s g =
     (case putFailedConnection s g of
        None \<Rightarrow> None
      | Some (s1, g1) \<Rightarrow> putFailedN k s1 g1)"

text \<open>
  What the getters of \<open>locationInfo_\<close> return for the selected node at the time of the
  call; the class is not part of the sources.
\<close>

record locationInfo =
  ipForSelectedNode :: "int \<Rightarrow> string"
  hostnameForSelectedNode :: string
  dnsName :: string
  wgPubKeyForSelectedNode :: string
  locVerifyX509name :: string
  isStaticIpsLocation :: bool
  staticIpUsername :: string
  staticIpPassword :: string
  locStaticIpPorts :: "nat list"
  wgIpForSelectedNode :: string

datatype CONNECTION_NODE_TYPE = CONNECTION_NODE_DEFAULT | CONNECTION_NODE_STATIC_IPS

record CurrentConnectionDescr =
  connectionNodeType :: CONNECTION_NODE_TYPE
  ccd_protocol :: PROTOCOL
  port :: nat
  ip :: string
  hostname :: string
  dnsHostName :: string
  wgPeerPublicKey :: string
  verifyX509name :: string
  username :: string
  password :: string
  staticIpPorts :: "nat list"

text \<open>
  \<open>getCurrentConnectionSettings\<close>, lines 164-195. \<open>getUseIpInd\<close> is
  \<open>portMap_.getUseIpInd\<close> of the missing \<open>PortMap\<close> class. A read outside
  \<open>attemps_\<close>, outside the items of the port map or of an empty \<open>ports\<close> vector is
  \<open>None\<close>.
\<close>

definition getCurrentConnectionSettings ::
  "(PROTOCOL \<Rightarrow> int) \<Rightarrow> locationInfo \<Rightarrow> policy \<Rightarrow> CurrentConnectionDescr option" where
  "getCurrentConnectionSettings getUseIpInd loc s =
     (if curAttempt s \<ge> length (attemps s) then None
      else let cur = attemps s ! curAttempt s in
        if portMapInd cur \<ge> length (portMap s) then None
        else let ports = item_ports (portMap s ! portMapInd cur) in
          if length ports = 0 then None
          else
            (let ccd = \<lparr>connectionNodeType = CONNECTION_NODE_DEFAULT,
                        ccd_protocol = protocol cur,
                        port = ports ! 0,
                        ip = ipForSelectedNode loc (getUseIpInd (protocol cur)),
                        hostname = hostnameForSelectedNode loc,
                        dnsHostName = dnsName loc,
                        wgPeerPublicKey = wgPubKeyForSelectedNode loc,
                        verifyX509name = locVerifyX509name loc,
                        username = [],
                        password = [],
                        staticIpPorts = []\<rparr>
             in if isStaticIpsLocation loc
                  then
                    (let ccd1 = ccd\<lparr>connectionNodeType := CONNECTION_NODE_STATIC_IPS,
                                     username := staticIpUsername loc,
                                     password := staticIpPassword loc,
                                     staticIpPorts := locStaticIpPorts loc\<rparr>
                     in if ccd_protocol ccd1 = WIREGUARD
                          then Some (ccd1\<lparr>ip := wgIpForSelectedNode loc\<rparr>)
                        else Some ccd1)
                else Some ccd))"

text \<open>
  \<open>saveCurrentSuccessfullConnectionSettings\<close>, lines 197-215; \<open>toLongString\<close> is
  \<open>PROTOCOL::toLongString\<close> of the missing header.
\<close>

definition saveCurrentSuccessfullConnectionSettings ::
  "(PROTOCOL \<Rightarrow> string) \<Rightarrow> policy \<Rightarrow> globals \<Rightarrow> globals option" where
  "saveCurrentSuccessfullConnectionSettings toLongString s g =
     (if curAttempt s \<ge> length (attemps s) then None
      else
        (let cur = attemps s ! curAttempt s;
             g1 = (if isIkev2Protocol (protocol cur) then g\<lparr>failedIkev2Counter := 0\<rparr> else g)
         in Some (g1\<lparr>settings :=
                    (settings g1)(''successConnectionProtocol'' \<mapsto> toLongString (protocol cur))\<rparr>)))"

text \<open>
  The globals when a process starts: line 8 initialises the static counter with 0, and the
  settings are what the store kept.
\<close>

definition processStart :: "(string \<rightharpoonup> string) \<Rightarrow> globals" where
  "processStart stored = \<lparr>failedIkev2Counter = 0, settings = stored\<rparr>"

text \<open>
  An entry of the port map survives the two filters of the constructor when it is not
  OpenVPN-UDP under a proxy and not IKEv2 once the failure counter has reached the limit.
\<close>

definition survivesFilters :: "bool \<Rightarrow> int \<Rightarrow> int \<Rightarrow> PortItem \<Rightarrow> bool" where
  "survivesFilters isProxyEnabled failed maxIkev2 it =
     (\<not> (isProxyEnabled \<and> item_protocol it = OPENVPN_UDP)
      \<and> \<not> (failed \<ge> maxIkev2 \<and> isIkev2Protocol (item_protocol it)))"

section \<open>Tunnel health prober (testvpntunnel.cpp)\<close>

text \<open>
  The advanced parameters of \<open>ExtraConfig\<close>: a getter sets \<open>advParamExists\<close> when the
  parameter is configured, which is \<open>Some\<close> of its value here.
\<close>

record extraConfig =
  tunnelTestStartDelay :: "int option"
  tunnelTestAttempts :: "int option"
  tunnelTestTimeout :: "int option"
  tunnelTestRetryDelay :: "int option"


text \<open>The slots that \<open>QTimer::singleShot\<close> is given.\<close>

datatype slot = StartTestImpl | DoNextPingTest | OnTestsSkipped

text \<open>
  The members of \<open>TestVPNTunnel\<close>, followed by what the object has done so far: the calls
  of \<open>serverAPI_->pingTest\<close> (command id, timeout, log flag) and of \<open>cancelPingTest\<close>, the
  emitted \<open>testsFinished\<close> signals and the single-shot timers that are pending (delay and
  slot). Times are milliseconds, counted from a midnight; \<open>elapsedStart\<close> is the time at
  which \<open>elapsed_\<close> was started, so that \<open>elapsed_.elapsed()\<close> at time \<open>now\<close> is
  \<open>now - elapsedStart\<close>. \<open>lastTimeForCallWithLog\<close> is a \<open>QTime\<close>, a time of day in
  milliseconds. \<open>elapsedOverallTimer_\<close> only feeds the log and is left out.
\<close>

record prober =
  bRunning :: bool
  curTest :: int
  cmdId :: nat
  doCustomTunnelTest :: bool
  timeouts :: "int list"
  testRetryDelay :: int
  proberProtocol :: PROTOCOL
  elapsedStart :: int
  lastTimeForCallWithLog :: int
  pingTestCalls :: "(nat \<times> int \<times> bool) list"
  cancelPingTestCalls :: "nat list"
  testsFinished :: "(bool \<times> string) list"
  timers :: "(int \<times> slot) list"

text \<open>
  \<open>QTime::currentTime()\<close> at time \<open>now\<close>: the milliseconds since the last midnight.
  \<open>QTime::msecsTo\<close> is the difference of two such times of day, negative when the day has
  changed in between.
\<close>

definition timeOfDay :: "int \<Rightarrow> int" where
  "timeOfDay now = now mod 86400000"

text \<open>The constructor, lines 8-12.\<close>

definition TestVPNTunnel :: prober where
  "TestVPNTunnel =
     \<lparr>bRunning = False, curTest = 1, cmdId = 0, doCustomTunnelTest = False, timeouts = [],
      testRetryDelay = 0, proberProtocol = UNINITIALIZED, elapsedStart = 0,
      lastTimeForCallWithLog = 0, pingTestCalls = [], cancelPingTestCalls = [],
      testsFinished = [], timers = []\<rparr>"

text \<open>
  Lines 59-67: the loop that fills \<open>timeouts_\<close> without an override; the first argument
  is \<open>PING_TEST_TIMEOUT_3\<close>, the second the number of iterations left, the third the local
  \<open>timeout\<close>.
\<close>

fun growTimeouts :: "int \<Rightarrow> nat \<Rightarrow> int \<Rightarrow> int list" where
  "growTimeouts cap 0 timeout = []"
| "growTimeouts cap (Suc n) timeout =
     timeout # growTimeouts cap n (if timeout < cap then timeout * 2 else timeout)"

text \<open>\<open>stopTests\<close>, lines 95-103.\<close>

definition stopTests :: "prober \<Rightarrow> prober" where
  "stopTests s =
     (if bRunning s
        then s\<lparr>bRunning := False, cancelPingTestCalls := cancelPingTestCalls s @ [cmdId s]\<rparr>
      else s)"

text \<open>
  \<open>startTestImpl\<close>, lines 39-93, at time \<open>now\<close>. \<open>t1\<close> and \<open>t3\<close> are the constants
  \<open>PING_TEST_TIMEOUT_1\<close> and \<open>PING_TEST_TIMEOUT_3\<close> of the missing header.
  \<open>QVector::fill(timeout, attempts)\<close> leaves the cleared vector empty for a negative size.
  Reading \<open>timeouts_[0]\<close> of an empty vector is the result \<open>None\<close>.
\<close>

definition startTestImpl :: "extraConfig \<Rightarrow> int \<Rightarrow> int \<Rightarrow> int \<Rightarrow> prober \<Rightarrow> prober option" where
  "startTestImpl cfg t1 t3 now s =
     (let s0 = s\<lparr>timeouts := []\<rparr>;
          attempts = (case tunnelTestAttempts cfg of None \<Rightarrow> 3 | Some a \<Rightarrow> a);
          s1 = (case tunnelTestAttempts cfg of
                  None \<Rightarrow> s0
                | Some a \<Rightarrow> s0\<lparr>doCustomTunnelTest := True\<rparr>)
      in if attempts = 0
           then Some (s1\<lparr>timers := timers s1 @ [(1, OnTestsSkipped)]\<rparr>)
         else
           (let s2 = (case tunnelTestTimeout cfg of
                        None \<Rightarrow> s1\<lparr>timeouts := growTimeouts t3 (nat attempts) t1\<rparr>
                      | Some timeout \<Rightarrow>
                          s1\<lparr>doCustomTunnelTest := True,
                             timeouts := replicate (nat attempts) timeout\<rparr>);
                s3 = (case tunnelTestRetryDelay cfg of
                        None \<Rightarrow> s2\<lparr>testRetryDelay := 0\<rparr>
                      | Some d \<Rightarrow> s2\<lparr>testRetryDelay := d, doCustomTunnelTest := True\<rparr>);
                s4 = s3\<lparr>bRunning := True, curTest := 1, elapsedStart := now,
                        cmdId := cmdId s3 + 1, lastTimeForCallWithLog := timeOfDay now\<rparr>
            in if timeouts s4 = [] then None
               else Some (s4\<lparr>pingTestCalls :=
                               pingTestCalls s4 @ [(cmdId s4, timeouts s4 ! 0, True)]\<rparr>)))"

text \<open>\<open>startTests\<close>, lines 18-37.\<close>

definition startTests ::
  "extraConfig \<Rightarrow> int \<Rightarrow> int \<Rightarrow> PROTOCOL \<Rightarrow> int \<Rightarrow> prober \<Rightarrow> prober option" where
  "startTests cfg t1 t3 p now s =
     (let s1 = (stopTests s)\<lparr>proberProtocol := p\<rparr>
      in case tunnelTestStartDelay cfg of
           Some delay \<Rightarrow> Some (s1\<lparr>timers := timers s1 @ [(delay, StartTestImpl)]\<rparr>)
         | None \<Rightarrow> startTestImpl cfg t1 t3 now s1)"

text \<open>\<open>doNextPingTest\<close>, lines 161-190, at time \<open>now\<close>.\<close>

definition doNextPingTest :: "int \<Rightarrow> prober \<Rightarrow> prober" where
  "doNextPingTest now s =
     (if bRunning s \<and> curTest s \<ge> 1 \<and> curTest s \<le> int (length (timeouts s)) then
        (let s1 = s\<lparr>cmdId := cmdId s + 1\<rparr>;
             timeout = timeouts s1 ! nat (curTest s1 - 1)
         in if doCustomTunnelTest s1
              then s1\<lparr>pingTestCalls := pingTestCalls s1 @ [(cmdId s1, timeout, True)]\<rparr>
            else
              (let bWriteLog = (timeOfDay now - lastTimeForCallWithLog s1 > 1000);
                   s2 = (if bWriteLog then s1\<lparr>lastTimeForCallWithLog := timeOfDay now\<rparr>
                         else s1);
                   elapsed = now - elapsedStart s2
               in if timeout - elapsed > 0
                    then s2\<lparr>pingTestCalls :=
                              pingTestCalls s2 @ [(cmdId s2, timeout - elapsed, bWriteLog)]\<rparr>
                  else s2\<lparr>pingTestCalls := pingTestCalls s2 @ [(cmdId s2, 100, bWriteLog)]\<rparr>))
      else s)"


text \<open>\<open>onTestsSkipped\<close>, lines 193-197.\<close>

definition onTestsSkipped :: "prober \<Rightarrow> prober" where
  "onTestsSkipped s = s\<lparr>testsFinished := testsFinished s @ [(True, [])]\<rparr>"






text \<open>
  A pending single-shot timer fires: its slot runs at the time of the call plus the delay.
  \<open>fireTimers\<close> lets up to \<open>n\<close> pending timers fire, the oldest first.
\<close>

definition fireSlot :: "extraConfig \<Rightarrow> int \<Rightarrow> int \<Rightarrow> slot \<Rightarrow> int \<Rightarrow> prober \<Rightarrow> prober option" where
  "fireSlot cfg t1 t3 sl now s =
     (case sl of
        StartTestImpl \<Rightarrow> startTestImpl cfg t1 t3 now s
      | DoNextPingTest \<Rightarrow> Some (doNextPingTest now s)
      | OnTestsSkipped \<Rightarrow> Some (onTestsSkipped s))"

fun fireTimers :: "extraConfig \<Rightarrow> int \<Rightarrow> int \<Rightarrow> nat \<Rightarrow> int \<Rightarrow> prober \<Rightarrow> prober option" where
  "fireTimers cfg t1 t3 0 now s = Some s"
| "fireTimers cfg t1 t3 (Suc n) now s =
     (case timers s of
        [] \<Rightarrow> Some s
      | (delay, sl) # pending \<Rightarrow>
          (case fireSlot cfg t1 t3 sl (now + delay) (s\<lparr>timers := pending\<rparr>) of
             None \<Rightarrow> None
           | Some s1 \<Rightarrow> fireTimers cfg t1 t3 n (now + delay) s1))"

section \<open>WireGuard connection (wireguardconnection_win.cpp)\<close>

datatype CONNECT_ERROR =
  EXE_VERIFY_WIREGUARD_ERROR | WIREGUARD_CONNECTION_ERROR | WIREGUARD_ADAPTER_SETUP_FAILED
  | STATE_TIMEOUT_FOR_AUTOMATIC

text \<open>The signals of \<open>IConnection\<close> that the class emits.\<close>

datatype wg_signal =
  SigConnected | SigError CONNECT_ERROR | SigDisconnected | SigStatisticsUpdated nat nat bool

text \<open>The states of a Windows service that \<open>queryServiceStatus\<close> reports.\<close>

datatype SERVICE_STATE =
  SERVICE_STOPPED | SERVICE_START_PENDING | SERVICE_STOP_PENDING | SERVICE_RUNNING
  | SERVICE_CONTINUE_PENDING | SERVICE_PAUSE_PENDING | SERVICE_PAUSED

text \<open>
  \<open>IHelper::ExecuteError\<close> and \<open>types::WireGuardState\<close> are declared outside the sources;
  the class compares with \<open>EXECUTE_SUCCESS\<close>, \<open>EXECUTE_VERIFY_ERROR\<close> and \<open>ACTIVE\<close>
  only, every other value carries its number.
\<close>

datatype ExecuteError = EXECUTE_SUCCESS | EXECUTE_VERIFY_ERROR | EXECUTE_OTHER nat

datatype WireGuardState = ACTIVE | OTHER_STATE nat

record WireGuardStatus =
  state :: WireGuardState
  lastHandshake :: nat
  bytesReceived :: nat
  bytesTransmitted :: nat

text \<open>
  The members of \<open>WireGuardConnection\<close>: \<open>running\<close> is \<open>QThread::isRunning()\<close>,
  \<open>serviceOpen\<close> is \<open>serviceCtrlManager_.isServiceOpen()\<close>, \<open>requestsBlocked\<close> follows
  \<open>blockStartStopRequests\<close>/\<open>unblockStartStopRequests\<close>. \<open>quitPending\<close> is the exit
  request that \<open>quit()\<close> leaves for the event loop of the thread, \<open>quitCalls\<close> counts the
  calls of \<open>quit()\<close>, and \<open>signals\<close> are the emitted signals in order.
\<close>

record wg =
  running :: bool
  stopRequested :: bool
  connectedSignalEmited :: bool
  isAutomaticConnectionMode :: bool
  serviceOpen :: bool
  requestsBlocked :: bool
  quitPending :: bool
  quitCalls :: nat
  signals :: "wg_signal list"

text \<open>
  The constructor, lines 253-258: it sets \<open>stopRequested_\<close>; the thread is not running and
  no service has been opened. The other members get their values in \<open>startConnect\<close>.
\<close>

definition WireGuardConnection :: wg where
  "WireGuardConnection =
     \<lparr>running = False, stopRequested = False, connectedSignalEmited = False,
      isAutomaticConnectionMode = False, serviceOpen = False, requestsBlocked = False,
      quitPending = False, quitCalls = 0, signals = []\<rparr>"

definition quit :: "wg \<Rightarrow> wg" where
  "quit s = s\<lparr>quitPending := True, quitCalls := quitCalls s + 1\<rparr>"

text \<open>
  \<open>isDisconnected\<close>, lines 313-326. \<open>query\<close> is the outcome of \<open>queryServiceStatus()\<close>,
  \<open>None\<close> when it throws \<open>std::system_error\<close>, which the function catches.
\<close>

definition isDisconnected :: "SERVICE_STATE option \<Rightarrow> wg \<Rightarrow> bool" where
  "isDisconnected query s =
     (let dwStatus = (if serviceOpen s
                        then (case query of Some st \<Rightarrow> st | None \<Rightarrow> SERVICE_STOPPED)
                      else SERVICE_STOPPED)
      in dwStatus = SERVICE_STOPPED \<or> dwStatus = SERVICE_STOP_PENDING)"

text \<open>\<open>startDisconnect\<close>, lines 301-311.\<close>

definition startDisconnect :: "SERVICE_STATE option \<Rightarrow> wg \<Rightarrow> wg" where
  "startDisconnect query s =
     (if running s
        then quit (s\<lparr>stopRequested := True, requestsBlocked := True\<rparr>)
      else if isDisconnected query s
        then s\<lparr>signals := signals s @ [SigDisconnected]\<rparr>
      else s)"

text \<open>\<open>onTunnelConnected\<close>, lines 573-578.\<close>

definition onTunnelConnected :: "wg \<Rightarrow> wg" where
  "onTunnelConnected s =
     s\<lparr>connectedSignalEmited := True, signals := signals s @ [SigConnected]\<rparr>"

text \<open>
  \<open>onGetWireguardStats\<close>, lines 492-509; the argument is what
  \<open>helper_->getWireGuardStatus\<close> delivers, \<open>None\<close> when it returns false.
\<close>

definition onGetWireguardStats :: "WireGuardStatus option \<Rightarrow> wg \<Rightarrow> wg" where
  "onGetWireguardStats status s =
     (case status of
        None \<Rightarrow> s
      | Some st \<Rightarrow>
          if state st = ACTIVE then
            (let s1 = (if \<not> connectedSignalEmited s \<and> lastHandshake st > 0
                         then onTunnelConnected s else s)
             in s1\<lparr>signals := signals s1 @
                      [SigStatisticsUpdated (bytesReceived st) (bytesTransmitted st) True]\<rparr>)
          else s)"

text \<open>\<open>onCheckServiceRunning\<close>, lines 467-473.\<close>

definition onCheckServiceRunning :: "SERVICE_STATE option \<Rightarrow> wg \<Rightarrow> wg" where
  "onCheckServiceRunning query s = (if isDisconnected query s then quit s else s)"

text \<open>
  What \<open>onWireguardHandshakeFailure\<close> reads from outside: the connectivity check, the
  status from the helper and the current time in seconds since the epoch.
\<close>

record handshakeEnv =
  haveInternet :: "bool option"
  hsStatus :: "WireGuardStatus option"
  nowSecs :: int

text \<open>\<open>onWireguardHandshakeFailure\<close>, lines 529-555.\<close>

definition onWireguardHandshakeFailure :: "handshakeEnv \<Rightarrow> wg \<Rightarrow> wg" where
  "onWireguardHandshakeFailure env s =
     (case haveInternet env of
        None \<Rightarrow> s
      | Some True \<Rightarrow>
          (case hsStatus env of
             None \<Rightarrow> s
           | Some st \<Rightarrow>
               if state st = ACTIVE \<and> lastHandshake st > 0 then
                 (let secsTo = nowSecs env -
                                 (int (lastHandshake st) div 10000000 - 11644473600)
                  in if secsTo \<ge> 3 * 60 then quit s else s)
               else s)
      | Some False \<Rightarrow> quit s)"

text \<open>
  \<open>onGetWireguardLogUpdates\<close>, lines 475-490, for a log that exists: the two flags are
  what \<open>isTunnelRunning()\<close> and \<open>handshakeFailed()\<close> say after \<open>getNewLogEntries()\<close>.
\<close>

record logView =
  isTunnelRunning :: bool
  handshakeFailed :: bool
  hsEnv :: handshakeEnv

definition onGetWireguardLogUpdates :: "logView \<Rightarrow> wg \<Rightarrow> wg" where
  "onGetWireguardLogUpdates lg s =
     (let s1 = (if \<not> connectedSignalEmited s \<and> isTunnelRunning lg
                  then onTunnelConnected s else s)
      in if isTunnelRunning lg \<and> handshakeFailed lg
           then onWireguardHandshakeFailure (hsEnv lg) s1
         else s1)"

text \<open>\<open>onAutomaticConnectionTimeout\<close>, lines 511-517.\<close>

definition onAutomaticConnectionTimeout :: "wg \<Rightarrow> wg" where
  "onAutomaticConnectionTimeout s =
     (if \<not> connectedSignalEmited s
        then quit (s\<lparr>signals := signals s @ [SigError STATE_TIMEOUT_FOR_AUTOMATIC]\<rparr>)
      else s)"

text \<open>
  What reaches the event loop of \<open>run\<close>: the timeouts of the four timers of lines 388-406
  with what their slots read, and a \<open>startDisconnect\<close> from the owner of the connection.
\<close>

datatype wg_event =
  GetWireguardStats "WireGuardStatus option"
  | CheckServiceRunning "SERVICE_STATE option"
  | GetWireguardLogUpdates logView
  | AutomaticConnectionTimeout
  | StartDisconnect "SERVICE_STATE option"

text \<open>
  \<open>timeoutArmed\<close> says that \<open>timerTimeoutForAutomatic\<close> exists and has not fired: the
  timer is single-shot, so its timeout is delivered once and never without the timer.
\<close>

fun dispatch :: "bool \<Rightarrow> wg_event \<Rightarrow> wg \<Rightarrow> bool \<times> wg" where
  "dispatch timeoutArmed (GetWireguardStats status) s = (timeoutArmed, onGetWireguardStats status s)"
| "dispatch timeoutArmed (CheckServiceRunning query) s =
     (timeoutArmed, onCheckServiceRunning query s)"
| "dispatch timeoutArmed (GetWireguardLogUpdates lg) s =
     (timeoutArmed, onGetWireguardLogUpdates lg s)"
| "dispatch timeoutArmed AutomaticConnectionTimeout s =
     (if timeoutArmed then (False, onAutomaticConnectionTimeout s) else (False, s))"
| "dispatch timeoutArmed (StartDisconnect query) s = (timeoutArmed, startDisconnect query s)"

text \<open>
  \<open>exec()\<close>: events are handled until an exit request is pending. The loop either returns,
  with the events it did not handle, or has used up the given events and still waits.
\<close>

datatype exec_result = Returned wg "wg_event list" | Waiting bool wg

fun exec :: "bool \<Rightarrow> wg_event list \<Rightarrow> wg \<Rightarrow> exec_result" where
  "exec timeoutArmed [] s =
     (if quitPending s then Returned (s\<lparr>quitPending := False\<rparr>) [] else Waiting timeoutArmed s)"
| "exec timeoutArmed (e # es) s =
     (if quitPending s then Returned (s\<lparr>quitPending := False\<rparr>) (e # es)
      else (case dispatch timeoutArmed e s of (armed1, s1) \<Rightarrow> exec armed1 es s1))"

text \<open>
  What \<open>run\<close> meets outside the object. \<open>startService\<close> (lines 557-571) may fail before
  or after the service has been opened.
\<close>

datatype startServiceOutcome = ServiceStarted | FailedBeforeOpen | FailedAfterOpen

record runEnv =
  startWireGuardResult :: ExecuteError
  generateConfigFileOk :: bool
  startServiceResult :: startServiceOutcome
  firstLog :: logView
  firstStatus :: "WireGuardStatus option"
  events :: "wg_event list"
  finalStatus :: "WireGuardStatus option"
  adapterSetupFailed :: bool

text \<open>
  \<open>run\<close>, lines 328-465, as far as the members and the signals go (files, the helper and
  the DNS leak protection are left out), in parts. \<open>runLoopStart\<close> is lines 383-386, the
  first look at the log and at the statistics. \<open>runLoop\<close> is the block of lines 376-427
  for a started service: the timers are created, the timer of the timeout only in the
  automatic mode (lines 400-406), and \<open>exec()\<close> runs unless a stop was requested; its
  result is \<open>None\<close> when the event loop has not returned on the given events.
\<close>

definition runLoopStart :: "runEnv \<Rightarrow> wg \<Rightarrow> wg" where
  "runLoopStart env s1 =
     (let s2 = onGetWireguardLogUpdates (firstLog env) s1
      in if \<not> connectedSignalEmited s2
           then onGetWireguardStats (firstStatus env) s2 else s2)"

definition runLoop :: "runEnv \<Rightarrow> wg \<Rightarrow> wg option" where
  "runLoop env s1 =
     (let s3 = runLoopStart env s1
      in if \<not> stopRequested s3
           then (case exec (isAutomaticConnectionMode s3) (events env) s3 of
                   Returned s4 rest \<Rightarrow> Some (onGetWireguardStats (finalStatus env) s4)
                 | Waiting armed s4 \<Rightarrow> None)
         else Some (onGetWireguardStats (finalStatus env) s3))"

text \<open>Lines 429-465: the service manager is closed and the last signals are emitted.\<close>

definition runFinish :: "runEnv \<Rightarrow> bool \<Rightarrow> wg \<Rightarrow> wg" where
  "runFinish env serviceStarted s5 =
     (let s6 = s5\<lparr>serviceOpen := False\<rparr>;
          s7 = (if adapterSetupFailed env
                  then s6\<lparr>signals := signals s6 @ [SigError WIREGUARD_ADAPTER_SETUP_FAILED]\<rparr>
                else if \<not> serviceStarted
                  then s6\<lparr>signals := signals s6 @ [SigError WIREGUARD_CONNECTION_ERROR]\<rparr>
                else s6)
      in s7\<lparr>signals := signals s7 @ [SigDisconnected], running := False\<rparr>)"

definition run :: "runEnv \<Rightarrow> wg \<Rightarrow> wg option" where
  "run env s0 =
     (let s = s0\<lparr>running := True\<rparr>
      in if startWireGuardResult env \<noteq> EXECUTE_SUCCESS then
           Some (s\<lparr>signals := signals s @
                      [SigError (if startWireGuardResult env = EXECUTE_VERIFY_ERROR
                                   then EXE_VERIFY_WIREGUARD_ERROR
                                 else WIREGUARD_CONNECTION_ERROR),
                       SigDisconnected],
                    running := False\<rparr>)
         else if \<not> generateConfigFileOk env then
           Some (s\<lparr>signals := signals s @ [SigError WIREGUARD_CONNECTION_ERROR, SigDisconnected],
                    serviceOpen := False, running := False\<rparr>)
         else
           (let serviceStarted = (startServiceResult env = ServiceStarted);
                s1 = (if startServiceResult env = FailedBeforeOpen then s
                      else s\<lparr>serviceOpen := True\<rparr>)
            in case (if serviceStarted then runLoop env s1 else Some s1) of
                 None \<Rightarrow> None
               | Some s5 \<Rightarrow> Some (runFinish env serviceStarted s5)))"

text \<open>
  \<open>startConnect\<close>, lines 269-299. When the thread is running, lines 286-290 request the
  stop and call \<open>wait()\<close>; \<open>wait\<close> is what the running thread makes of the object until
  \<open>run\<close> has returned. \<open>start(LowPriority)\<close> of line 298 makes \<open>isRunning()\<close> true;
  the thread then executes \<open>run\<close>.
\<close>

definition startConnect :: "(wg \<Rightarrow> wg) \<Rightarrow> bool \<Rightarrow> wg \<Rightarrow> wg" where
  "startConnect wait isAutomatic s =
     (let s1 = (if running s then wait (quit (s\<lparr>stopRequested := True\<rparr>)) else s)
      in s1\<lparr>connectedSignalEmited := False, isAutomaticConnectionMode := isAutomatic,
            stopRequested := False, requestsBlocked := False, running := True\<rparr>)"

text \<open>The state in which the event loop was left.\<close>

definition resultState :: "exec_result \<Rightarrow> wg" where
  "resultState r = (case r of Returned s rest \<Rightarrow> s | Waiting armed s \<Rightarrow> s)"

text \<open>The number of \<open>STATE_TIMEOUT_FOR_AUTOMATIC\<close> errors among emitted signals.\<close>

definition timeoutErrors :: "wg_signal list \<Rightarrow> nat" where
  "timeoutErrors sigs = length (filter (\<lambda>x. x = SigError STATE_TIMEOUT_FOR_AUTOMATIC) sigs)"

section \<open>Concrete inputs for the worked examples\<close>

text \<open>
  \<open>PROTOCOL::fromString\<close> and \<open>toLongString\<close> are not part of the sources; the examples
  use this pair of conversions.
\<close>

definition sampleToLongString :: "PROTOCOL \<Rightarrow> string" where
  "sampleToLongString p =
     (case p of
        UNINITIALIZED \<Rightarrow> ''uninitialized''
      | IKEV2 \<Rightarrow> ''IKEv2''
      | OPENVPN_UDP \<Rightarrow> ''UDP''
      | OPENVPN_TCP \<Rightarrow> ''TCP''
      | STUNNEL \<Rightarrow> ''Stealth''
      | WSTUNNEL \<Rightarrow> ''WStunnel''
      | WIREGUARD \<Rightarrow> ''WireGuard'')"

definition sampleFromString :: "string \<Rightarrow> PROTOCOL" where
  "sampleFromString str =
     (if str = ''IKEv2'' then IKEV2
      else if str = ''UDP'' then OPENVPN_UDP
      else if str = ''TCP'' then OPENVPN_TCP
      else if str = ''Stealth'' then STUNNEL
      else if str = ''WStunnel'' then WSTUNNEL
      else if str = ''WireGuard'' then WIREGUARD
      else UNINITIALIZED)"

definition noSettings :: globals where
  "noSettings = \<lparr>failedIkev2Counter = 0, settings = Map.empty\<rparr>"




definition sampleUseIpInd :: "PROTOCOL \<Rightarrow> int" where
  "sampleUseIpInd p = 0"

definition sampleLocation :: locationInfo where
  "sampleLocation =
     \<lparr>ipForSelectedNode = (\<lambda>i. ''192.0.2.1''), hostnameForSelectedNode = ''node.example'',
      dnsName = ''dns.example'', wgPubKeyForSelectedNode = ''key'', locVerifyX509name = ''name'',
      isStaticIpsLocation = False, staticIpUsername = [], staticIpPassword = [],
      locStaticIpPorts = [], wgIpForSelectedNode = ''192.0.2.2''\<rparr>"




definition zeroAttempts :: extraConfig where
  "zeroAttempts = \<lparr>tunnelTestStartDelay = None, tunnelTestAttempts = Some 0,
                   tunnelTestTimeout = None, tunnelTestRetryDelay = None\<rparr>"

text \<open>A log in which the tunnel is up and no handshake has failed.\<close>

definition tunnelUpLog :: logView where
  "tunnelUpLog = \<lparr>isTunnelRunning = True, handshakeFailed = False,
      hsEnv = \<lparr>haveInternet = Some True, hsStatus = None, nowSecs = 0\<rparr>\<rparr>"

text \<open>
  A thread that leaves the object as it is when it returns from \<open>run\<close>; the examples
  start connections whose thread is not running.
\<close>

definition threadReturned :: "wg \<Rightarrow> wg" where
  "threadReturned s = s\<lparr>running := False, quitPending := False\<rparr>"

text \<open>
  Two runs of a started service: in the first the timeout comes after a look at the
  statistics that shows nothing, in the second after the log has shown the tunnel up, and
  the owner of the connection stops it afterwards.
\<close>

definition quietLog :: logView where
  "quietLog = \<lparr>isTunnelRunning = False, handshakeFailed = False,
      hsEnv = \<lparr>haveInternet = Some True, hsStatus = None, nowSecs = 0\<rparr>\<rparr>"

definition timeoutRun :: runEnv where
  "timeoutRun =
     \<lparr>startWireGuardResult = EXECUTE_SUCCESS, generateConfigFileOk = True,
      startServiceResult = ServiceStarted, firstLog = quietLog, firstStatus = None,
      events = [GetWireguardStats None, AutomaticConnectionTimeout, CheckServiceRunning None],
      finalStatus = None, adapterSetupFailed = False\<rparr>"

definition connectedRun :: runEnv where
  "connectedRun =
     \<lparr>startWireGuardResult = EXECUTE_SUCCESS, generateConfigFileOk = True,
      startServiceResult = ServiceStarted, firstLog = quietLog, firstStatus = None,
      events = [GetWireguardLogUpdates tunnelUpLog, AutomaticConnectionTimeout,
                StartDisconnect None],
      finalStatus = None, adapterSetupFailed = False\<rparr>"

section \<open>Properties of the attempt plan\<close>

lemma collectAttempts_protocols:
  "map protocol (collectAttempts px failed mx ind items) =
     map item_protocol (filter (survivesFilters px failed mx) items)"
  by (induction items arbitrary: ind) (auto simp: survivesFilters_def)

lemma length_collectAttempts:
  "length (collectAttempts px failed mx ind items) =
     length (filter (survivesFilters px failed mx) items)"
proof -
  have "length (map protocol (collectAttempts px failed mx ind items)) =
        length (map item_protocol (filter (survivesFilters px failed mx) items))"
    by (simp only: collectAttempts_protocols)
  then show ?thesis by simp
qed

lemma length_markLast: "length (markLast xs) = length xs"
  by (simp add: markLast_def)

lemma findProtocol_bound:
  "findProtocol p i xs = Some k \<Longrightarrow> i \<le> k \<and> k < i + length xs"
  by (induction xs arbitrary: i) (fastforce split: if_splits)+

lemma length_removeAt: "i < length xs \<Longrightarrow> length (removeAt i xs) = length xs - 1"
  by (auto simp: removeAt_def)

lemma length_insertAt: "length (insertAt i x xs) = Suc (length xs)"
  by (simp add: insertAt_def)

lemma length_moveLastSuccess: "length (moveLastSuccess p xs) = length xs"
proof (cases "findProtocol p 0 xs")
  case None
  then show ?thesis by (simp add: moveLastSuccess_def)
next
  case (Some i)
  then have "i < length xs" using findProtocol_bound [of p 0 xs i] by simp
  then have "Suc (length (removeAt i xs)) = length xs"
    by (simp add: length_removeAt)
  then show ?thesis using Some
    by (simp add: moveLastSuccess_def Let_def length_insertAt)
qed

lemma copyPerNode_concat:
  "copyPerNode n xs acc = acc @ concat (replicate n xs)"
proof (induction n arbitrary: acc)
  case 0
  then show ?case by simp
next
  case (Suc n)
  have "xs @ concat (replicate n xs) = concat (replicate (Suc n) xs)" by simp
  then show ?case using Suc by (simp del: replicate.simps)
qed

lemma length_localAttempsOf:
  "length (localAttempsOf p px failed mx items) =
     length (filter (survivesFilters px failed mx) items)"
  by (simp add: localAttempsOf_def length_moveLastSuccess length_markLast length_collectAttempts)

text \<open>
  C1. For every port map, node count, proxy flag, failure counter (and saved protocol), the
  plan that the constructor builds has length 2 * N * (number of entries of the port map
  that survive the proxy and IKEv2 filters): it is the attempts of one node repeated once
  for every node, and that sequence twice.
\<close>

theorem C1_plan_length:
  "length (attemps (AutoConnSettingsPolicy fromString maxIkev2 g N pm isProxyEnabled)) =
     2 * N * length (filter (survivesFilters isProxyEnabled (failedIkev2Counter g) maxIkev2) pm)
   \<and> attemps (AutoConnSettingsPolicy fromString maxIkev2 g N pm isProxyEnabled) =
       concat (replicate N
         (localAttempsOf (readLastSuccessProtocol fromString (settings g)) isProxyEnabled
            (failedIkev2Counter g) maxIkev2 pm))
       @ concat (replicate N
         (localAttempsOf (readLastSuccessProtocol fromString (settings g)) isProxyEnabled
            (failedIkev2Counter g) maxIkev2 pm))"
proof -
  define la where "la = localAttempsOf (readLastSuccessProtocol fromString (settings g))
    isProxyEnabled (failedIkev2Counter g) maxIkev2 pm"
  have plan: "attemps (AutoConnSettingsPolicy fromString maxIkev2 g N pm isProxyEnabled) =
      concat (replicate N la) @ concat (replicate N la)"
    by (simp add: AutoConnSettingsPolicy_def Let_def copyPerNode_concat la_def)
  have per_node: "length (concat (replicate N la)) = N * length la"
    by (simp add: length_concat sum_list_replicate)
  have "length la = length (filter (survivesFilters isProxyEnabled (failedIkev2Counter g) maxIkev2) pm)"
    by (simp add: la_def length_localAttempsOf)
  then have "length (concat (replicate N la) @ concat (replicate N la)) =
      2 * N * length (filter (survivesFilters isProxyEnabled (failedIkev2Counter g) maxIkev2) pm)"
    by (simp add: per_node)
  then show ?thesis using plan by (simp add: la_def)
qed

text \<open>The constructor on the port map WireGuard, IKEv2 with one node and no proxy.\<close>

theorem C1_plan_length_witness:
  "length (attemps (AutoConnSettingsPolicy sampleFromString 4 noSettings 1
      [\<lparr>item_protocol = WIREGUARD, item_ports = [51820]\<rparr>,
       \<lparr>item_protocol = IKEV2, item_ports = [500]\<rparr>] False)) = 4"
proof -
  have "length (attemps (AutoConnSettingsPolicy sampleFromString 4 noSettings 1
      [\<lparr>item_protocol = WIREGUARD, item_ports = [51820]\<rparr>,
       \<lparr>item_protocol = IKEV2, item_ports = [500]\<rparr>] False)) =
    2 * 1 * length (filter (survivesFilters False (failedIkev2Counter noSettings) 4)
      [\<lparr>item_protocol = WIREGUARD, item_ports = [51820]\<rparr>,
       \<lparr>item_protocol = IKEV2, item_ports = [500]\<rparr>])"
    using C1_plan_length [of sampleFromString 4 noSettings 1
      "[\<lparr>item_protocol = WIREGUARD, item_ports = [51820]\<rparr>,
        \<lparr>item_protocol = IKEV2, item_ports = [500]\<rparr>]" False]
    by (rule conjunct1)
  also have "\<dots> = 4"
    by (simp add: survivesFilters_def isIkev2Protocol_def noSettings_def)
  finally show ?thesis .
qed

subsection \<open>The proxy filter\<close>










subsection \<open>The saved protocol\<close>

lemma findProtocol_first:
  "findProtocol p i xs = Some k \<Longrightarrow>
     i \<le> k \<and> k - i < length xs \<and> protocol (xs ! (k - i)) = p \<and> (\<forall>j < k - i. protocol (xs ! j) \<noteq> p)"
proof (induction xs arbitrary: i)
  case Nil
  then show ?case by simp
next
  case (Cons a xs)
  show ?case
  proof (cases "protocol a = p")
    case True
    with Cons.prems show ?thesis by simp
  next
    case False
    with Cons.prems have rec: "findProtocol p (Suc i) xs = Some k" by simp
    from Cons.IH [OF rec]
    have ih: "Suc i \<le> k" "k - Suc i < length xs" "protocol (xs ! (k - Suc i)) = p"
      "\<forall>j < k - Suc i. protocol (xs ! j) \<noteq> p" by simp_all
    from ih(1) have eq: "k - i = Suc (k - Suc i)" by simp
    have "\<forall>j < k - i. protocol ((a # xs) ! j) \<noteq> p"
    proof (intro allI impI)
      fix j assume "j < k - i"
      then show "protocol ((a # xs) ! j) \<noteq> p"
        using False ih(4) eq by (cases j) simp_all
    qed
    then show ?thesis using ih eq by simp
  qed
qed

lemma findProtocol_found:
  "p \<in> protocol ` set xs \<Longrightarrow> \<exists>k. findProtocol p i xs = Some k"
  by (induction xs arbitrary: i) auto

lemma insertAt_0: "insertAt 0 x ys = x # ys"
  by (simp add: insertAt_def)

lemma insertAt_1: "ys \<noteq> [] \<Longrightarrow> insertAt (Suc 0) x ys = hd ys # x # tl ys"
  by (cases ys) (simp_all add: insertAt_def)

lemma hd_removeAt: "0 < i \<Longrightarrow> xs \<noteq> [] \<Longrightarrow> hd (removeAt i xs) = hd xs"
  by (cases xs; cases i) (simp_all add: removeAt_def)

lemma removeAt_nonempty: "0 < i \<Longrightarrow> xs \<noteq> [] \<Longrightarrow> removeAt i xs \<noteq> []"
  by (cases xs; cases i) (simp_all add: removeAt_def)

lemma moveLastSuccess_position:
  assumes "X \<noteq> UNINITIALIZED" and "X \<in> protocol ` set xs"
  shows "\<exists>i<length xs. protocol (xs ! i) = X \<and> (\<forall>j<i. protocol (xs ! j) \<noteq> X) \<and>
           moveLastSuccess X xs =
             (if removeAt i xs \<noteq> [] \<and> isIkev2Protocol (protocol (hd (removeAt i xs)))
                then hd (removeAt i xs) # xs ! i # tl (removeAt i xs)
              else xs ! i # removeAt i xs)"
proof -
  from assms(2) obtain i where found: "findProtocol X 0 xs = Some i"
    using findProtocol_found by blast
  from findProtocol_first [OF found]
  have i: "i < length xs" "protocol (xs ! i) = X" "\<forall>j<i. protocol (xs ! j) \<noteq> X"
    by simp_all
  have "moveLastSuccess X xs =
      (if removeAt i xs \<noteq> [] \<and> isIkev2Protocol (protocol (hd (removeAt i xs)))
         then hd (removeAt i xs) # xs ! i # tl (removeAt i xs)
       else xs ! i # removeAt i xs)"
    using assms(1) found by (simp add: moveLastSuccess_def Let_def insertAt_0 insertAt_1)
  with i show ?thesis by blast
qed

lemma plan_nth:
  assumes "0 < N" and "k < length la"
    and "la = localAttempsOf (readLastSuccessProtocol fromString (settings g)) px
            (failedIkev2Counter g) mx pm"
  shows "attemps (AutoConnSettingsPolicy fromString mx g N pm px) ! k = la ! k"
proof -
  from assms(1) obtain n where N: "N = Suc n" by (cases N) auto
  have "attemps (AutoConnSettingsPolicy fromString mx g N pm px) =
      la @ (concat (replicate n la) @ concat (replicate N la))"
    by (simp add: AutoConnSettingsPolicy_def Let_def copyPerNode_concat assms(3) N)
  then show ?thesis using assms(2) by (simp add: nth_append)
qed

lemma plan_take:
  assumes "0 < N"
    and "la = localAttempsOf (readLastSuccessProtocol fromString (settings g)) px
            (failedIkev2Counter g) mx pm"
  shows "take (length la) (attemps (AutoConnSettingsPolicy fromString mx g N pm px)) = la"
proof -
  from assms(1) obtain n where N: "N = Suc n" by (cases N) auto
  have "attemps (AutoConnSettingsPolicy fromString mx g N pm px) =
      la @ (concat (replicate n la) @ concat (replicate N la))"
    by (simp add: AutoConnSettingsPolicy_def Let_def copyPerNode_concat assms(2) N)
  then show ?thesis by simp
qed

text \<open>
  C7. Let a protocol X be recorded in the settings (the constructor reads a value other
  than \<open>UNINITIALIZED\<close>) and occur among the filtered entries. Let i be the index of the
  first filtered entry with protocol X; the entries that remain are the i entries before it
  followed by the entries after it. If the remaining entries start with IKEv2, the attempts
  of a node are that IKEv2 entry at index 0, the entry of X at index 1 and then the other
  remaining entries in their order; otherwise they are the entry of X at index 0 followed
  by the remaining entries in their order. For a location with a node the plan starts with
  these attempts. In particular, for X other than IKEv2 and IKEv2 first among the filtered
  entries, the IKEv2 entry is at index 0 and X at index 1, of the attempts of a node and of
  the plan.
\<close>

theorem C7_saved_protocol_position:
  assumes saved: "readLastSuccessProtocol fromString (settings g) = X" "X \<noteq> UNINITIALIZED"
    and filt: "filtered = markLast (collectAttempts px (failedIkev2Counter g) mx 0 pm)"
    and mem: "X \<in> protocol ` set filtered"
    and la: "la = localAttempsOf X px (failedIkev2Counter g) mx pm"
    and plan: "plan = attemps (AutoConnSettingsPolicy fromString mx g N pm px)"
  shows "(\<exists>i<length filtered. protocol (filtered ! i) = X \<and> (\<forall>j<i. protocol (filtered ! j) \<noteq> X) \<and>
     la = (if take i filtered @ drop (Suc i) filtered \<noteq> [] \<and>
              isIkev2Protocol (protocol (hd (take i filtered @ drop (Suc i) filtered)))
             then hd (take i filtered @ drop (Suc i) filtered) # filtered ! i
                    # tl (take i filtered @ drop (Suc i) filtered)
           else filtered ! i # take i filtered @ drop (Suc i) filtered)) \<and>
     (0 < N \<longrightarrow> take (length la) plan = la) \<and>
     (\<not> isIkev2Protocol X \<and> isIkev2Protocol (protocol (hd filtered)) \<longrightarrow>
        la ! 0 = hd filtered \<and> protocol (la ! 1) = X \<and>
        (0 < N \<longrightarrow> plan ! 0 = hd filtered \<and> protocol (plan ! 1) = X))"
proof -
  have la_def': "la = localAttempsOf (readLastSuccessProtocol fromString (settings g)) px
            (failedIkev2Counter g) mx pm"
    by (simp add: la saved(1))
  have la_move: "la = moveLastSuccess X filtered"
    by (simp add: la localAttempsOf_def filt)
  from moveLastSuccess_position [OF saved(2) mem]
  obtain i where i: "i < length filtered" "protocol (filtered ! i) = X"
      "\<forall>j<i. protocol (filtered ! j) \<noteq> X"
    and mv: "la = (if removeAt i filtered \<noteq> [] \<and> isIkev2Protocol (protocol (hd (removeAt i filtered)))
                then hd (removeAt i filtered) # filtered ! i # tl (removeAt i filtered)
              else filtered ! i # removeAt i filtered)"
    unfolding la_move by blast
  have gone: "removeAt i filtered = take i filtered @ drop (Suc i) filtered"
    by (simp add: removeAt_def)
  have mv': "la = (if take i filtered @ drop (Suc i) filtered \<noteq> [] \<and>
              isIkev2Protocol (protocol (hd (take i filtered @ drop (Suc i) filtered)))
             then hd (take i filtered @ drop (Suc i) filtered) # filtered ! i
                    # tl (take i filtered @ drop (Suc i) filtered)
           else filtered ! i # take i filtered @ drop (Suc i) filtered)"
    using mv by (simp only: gone)
  have ne: "filtered \<noteq> []" using i(1) by auto
  have pre: "0 < N \<longrightarrow> take (length la) plan = la"
    using plan_take [OF _ la_def'] by (simp add: plan)
  have special: "\<not> isIkev2Protocol X \<and> isIkev2Protocol (protocol (hd filtered)) \<longrightarrow>
        la ! 0 = hd filtered \<and> protocol (la ! 1) = X \<and>
        (0 < N \<longrightarrow> plan ! 0 = hd filtered \<and> protocol (plan ! 1) = X)"
  proof
    assume h: "\<not> isIkev2Protocol X \<and> isIkev2Protocol (protocol (hd filtered))"
    have "i \<noteq> 0"
    proof
      assume "i = 0"
      then have "protocol (hd filtered) = X" using i(2) ne by (simp add: hd_conv_nth)
      then show False using h by simp
    qed
    then have front: "hd (removeAt i filtered) = hd filtered" "removeAt i filtered \<noteq> []"
      using ne by (simp_all add: hd_removeAt removeAt_nonempty)
    have la_eq: "la = hd filtered # filtered ! i # tl (removeAt i filtered)"
      using mv front h by simp
    then have l0: "la ! 0 = hd filtered" and l1: "protocol (la ! 1) = X"
      using i(2) by simp_all
    have "0 < N \<longrightarrow> plan ! 0 = hd filtered \<and> protocol (plan ! 1) = X"
    proof
      assume n: "0 < N"
      have "0 < length la" "1 < length la" using la_eq by simp_all
      then have "plan ! 0 = la ! 0" "plan ! 1 = la ! 1"
        using plan_nth [OF n _ la_def', of 0] plan_nth [OF n _ la_def', of 1]
        by (simp_all add: plan)
      then show "plan ! 0 = hd filtered \<and> protocol (plan ! 1) = X" using l0 l1 by simp
    qed
    with l0 l1 show "la ! 0 = hd filtered \<and> protocol (la ! 1) = X \<and>
        (0 < N \<longrightarrow> plan ! 0 = hd filtered \<and> protocol (plan ! 1) = X)" by simp
  qed
  have "\<exists>i<length filtered. protocol (filtered ! i) = X \<and> (\<forall>j<i. protocol (filtered ! j) \<noteq> X) \<and>
     la = (if take i filtered @ drop (Suc i) filtered \<noteq> [] \<and>
              isIkev2Protocol (protocol (hd (take i filtered @ drop (Suc i) filtered)))
             then hd (take i filtered @ drop (Suc i) filtered) # filtered ! i
                    # tl (take i filtered @ drop (Suc i) filtered)
           else filtered ! i # take i filtered @ drop (Suc i) filtered)"
    using i mv' by blast
  with pre special show ?thesis by (intro conjI)
qed

text \<open>
  WireGuard is saved, the port map is IKEv2, OpenVPN-UDP, WireGuard and the location has one
  node: the WireGuard entry leaves index 2 and the plan is IKEv2, WireGuard, OpenVPN-UDP,
  twice.
\<close>

theorem C7_saved_protocol_position_witness:
  "readLastSuccessProtocol sampleFromString
     (settings \<lparr>failedIkev2Counter = 0,
                settings = [''successConnectionProtocol'' \<mapsto> ''WireGuard'']\<rparr>) = WIREGUARD
   \<and> WIREGUARD \<noteq> UNINITIALIZED
   \<and> markLast (collectAttempts False 0 4 0
        [\<lparr>item_protocol = IKEV2, item_ports = [500]\<rparr>,
         \<lparr>item_protocol = OPENVPN_UDP, item_ports = [443]\<rparr>,
         \<lparr>item_protocol = WIREGUARD, item_ports = [51820]\<rparr>]) =
       [\<lparr>protocol = IKEV2, portMapInd = 0, changeNode = False\<rparr>,
        \<lparr>protocol = OPENVPN_UDP, portMapInd = 1, changeNode = False\<rparr>,
        \<lparr>protocol = WIREGUARD, portMapInd = 2, changeNode = True\<rparr>]
   \<and> protocol (attemps (AutoConnSettingsPolicy sampleFromString 4
        \<lparr>failedIkev2Counter = 0,
         settings = [''successConnectionProtocol'' \<mapsto> ''WireGuard'']\<rparr> 1
        [\<lparr>item_protocol = IKEV2, item_ports = [500]\<rparr>,
         \<lparr>item_protocol = OPENVPN_UDP, item_ports = [443]\<rparr>,
         \<lparr>item_protocol = WIREGUARD, item_ports = [51820]\<rparr>] False) ! 1) = WIREGUARD
   \<and> attemps (AutoConnSettingsPolicy sampleFromString 4
        \<lparr>failedIkev2Counter = 0,
         settings = [''successConnectionProtocol'' \<mapsto> ''WireGuard'']\<rparr> 1
        [\<lparr>item_protocol = IKEV2, item_ports = [500]\<rparr>,
         \<lparr>item_protocol = OPENVPN_UDP, item_ports = [443]\<rparr>,
         \<lparr>item_protocol = WIREGUARD, item_ports = [51820]\<rparr>] False) =
       [\<lparr>protocol = IKEV2, portMapInd = 0, changeNode = False\<rparr>,
        \<lparr>protocol = WIREGUARD, portMapInd = 2, changeNode = True\<rparr>,
        \<lparr>protocol = OPENVPN_UDP, portMapInd = 1, changeNode = False\<rparr>,
        \<lparr>protocol = IKEV2, portMapInd = 0, changeNode = False\<rparr>,
        \<lparr>protocol = WIREGUARD, portMapInd = 2, changeNode = True\<rparr>,
        \<lparr>protocol = OPENVPN_UDP, portMapInd = 1, changeNode = False\<rparr>]"
proof -
  let ?g = "\<lparr>failedIkev2Counter = 0,
             settings = [''successConnectionProtocol'' \<mapsto> ''WireGuard'']\<rparr>"
  let ?pm = "[\<lparr>item_protocol = IKEV2, item_ports = [500]\<rparr>,
              \<lparr>item_protocol = OPENVPN_UDP, item_ports = [443]\<rparr>,
              \<lparr>item_protocol = WIREGUARD, item_ports = [51820]\<rparr>]"
  have h1: "readLastSuccessProtocol sampleFromString (settings ?g) = WIREGUARD"
    by (simp add: readLastSuccessProtocol_def sampleFromString_def)
  have h2: "WIREGUARD \<noteq> UNINITIALIZED" by simp
  have fl: "markLast (collectAttempts False 0 4 0 ?pm) =
       [\<lparr>protocol = IKEV2, portMapInd = 0, changeNode = False\<rparr>,
        \<lparr>protocol = OPENVPN_UDP, portMapInd = 1, changeNode = False\<rparr>,
        \<lparr>protocol = WIREGUARD, portMapInd = 2, changeNode = True\<rparr>]"
    by (simp add: markLast_def isIkev2Protocol_def)
  have h3: "WIREGUARD \<in> protocol ` set (markLast (collectAttempts False (failedIkev2Counter ?g) 4 0 ?pm))"
    by (simp add: markLast_def isIkev2Protocol_def)
  from C7_saved_protocol_position [where N = 1, OF h1 h2 refl h3 refl refl, THEN conjunct2, THEN conjunct2]
  have at1: "protocol (attemps (AutoConnSettingsPolicy sampleFromString 4 ?g 1 ?pm False) ! 1) = WIREGUARD"
    by (simp add: markLast_def isIkev2Protocol_def)
  have whole: "attemps (AutoConnSettingsPolicy sampleFromString 4 ?g 1 ?pm False) =
       [\<lparr>protocol = IKEV2, portMapInd = 0, changeNode = False\<rparr>,
        \<lparr>protocol = WIREGUARD, portMapInd = 2, changeNode = True\<rparr>,
        \<lparr>protocol = OPENVPN_UDP, portMapInd = 1, changeNode = False\<rparr>,
        \<lparr>protocol = IKEV2, portMapInd = 0, changeNode = False\<rparr>,
        \<lparr>protocol = WIREGUARD, portMapInd = 2, changeNode = True\<rparr>,
        \<lparr>protocol = OPENVPN_UDP, portMapInd = 1, changeNode = False\<rparr>]"
    by (simp add: AutoConnSettingsPolicy_def Let_def localAttempsOf_def markLast_def
        moveLastSuccess_def readLastSuccessProtocol_def sampleFromString_def isIkev2Protocol_def
        removeAt_def insertAt_def)
  from h1 h2 fl at1 whole show ?thesis by (intro conjI)
qed

subsection \<open>Failures until the plan is used up\<close>

lemma putFailedConnection_step:
  assumes "bStarted s" and "curAttempt s < length (attemps s)"
  shows "\<exists>s1 g1. putFailedConnection s g = Some (s1, g1) \<and> bStarted s1 \<and>
           attemps s1 = attemps s \<and>
           (if Suc (curAttempt s) < length (attemps s)
              then curAttempt s1 = Suc (curAttempt s) \<and> bIsAllFailed s1 = bIsAllFailed s
            else curAttempt s1 = curAttempt s \<and> bIsAllFailed s1)"
  using assms by (auto simp: putFailedConnection_def Let_def)

lemma putFailedN_isFailed:
  assumes "bStarted s" and "curAttempt s < length (attemps s)"
  shows "\<exists>s1 g1. putFailedN k s g = Some (s1, g1) \<and>
           (isFailed s1 \<longleftrightarrow> bIsAllFailed s \<or> length (attemps s) \<le> curAttempt s + k)"
  using assms
proof (induction k arbitrary: s g)
  case 0
  then show ?case by (simp add: isFailed_def)
next
  case (Suc k)
  from putFailedConnection_step [OF Suc.prems, of g]
  obtain s1 g1 where step: "putFailedConnection s g = Some (s1, g1)" "bStarted s1"
      "attemps s1 = attemps s"
      "if Suc (curAttempt s) < length (attemps s)
         then curAttempt s1 = Suc (curAttempt s) \<and> bIsAllFailed s1 = bIsAllFailed s
       else curAttempt s1 = curAttempt s \<and> bIsAllFailed s1"
    by blast
  have in_range: "curAttempt s1 < length (attemps s1)"
    using step(3,4) Suc.prems(2) by (auto split: if_splits)
  from Suc.IH [OF step(2) in_range, of g1]
  obtain s2 g2 where rest: "putFailedN k s1 g1 = Some (s2, g2)"
      "isFailed s2 \<longleftrightarrow> bIsAllFailed s1 \<or> length (attemps s1) \<le> curAttempt s1 + k"
    by blast
  have run: "putFailedN (Suc k) s g = Some (s2, g2)"
    using step(1) rest(1) by simp
  have "isFailed s2 \<longleftrightarrow> bIsAllFailed s \<or> length (attemps s) \<le> curAttempt s + Suc k"
  proof (cases "Suc (curAttempt s) < length (attemps s)")
    case True
    then show ?thesis using step(3,4) rest(2) by auto
  next
    case False
    then have "length (attemps s) \<le> curAttempt s + Suc k" by simp
    then show ?thesis using False step(3,4) rest(2) by auto
  qed
  with run show ?case by blast
qed

text \<open>
  C2 (as the code has it). For a started policy at the start of a plan that is not empty,
  of length L: \<open>putFailedConnection\<close> can be called any number k of times, and after k calls
  \<open>isFailed\<close> is true exactly when L \<le> k. So it is false after fewer than L calls and true
  after L calls; before the first call it is false.
\<close>

theorem C2_failed_after_whole_plan:
  assumes "bStarted s" and "attemps s \<noteq> []" and "curAttempt s = 0" and "\<not> bIsAllFailed s"
  shows "\<exists>s1 g1. putFailedN k s g = Some (s1, g1) \<and> (isFailed s1 \<longleftrightarrow> length (attemps s) \<le> k)"
proof -
  have "curAttempt s < length (attemps s)" using assms(2,3) by simp
  from putFailedN_isFailed [OF assms(1) this, of k g] show ?thesis
    using assms(3,4) by simp
qed

text \<open>The plan of length 4 from above, started: not failed after 3 calls, failed after 4.\<close>

theorem C2_failed_after_whole_plan_witness:
  "bStarted ((AutoConnSettingsPolicy sampleFromString 4 noSettings 1
      [\<lparr>item_protocol = WIREGUARD, item_ports = [51820]\<rparr>,
       \<lparr>item_protocol = IKEV2, item_ports = [500]\<rparr>] False)\<lparr>bStarted := True\<rparr>)
   \<and> (\<exists>s1 g1. putFailedN 3 ((AutoConnSettingsPolicy sampleFromString 4 noSettings 1
      [\<lparr>item_protocol = WIREGUARD, item_ports = [51820]\<rparr>,
       \<lparr>item_protocol = IKEV2, item_ports = [500]\<rparr>] False)\<lparr>bStarted := True\<rparr>) noSettings
         = Some (s1, g1) \<and> \<not> isFailed s1)
   \<and> (\<exists>s1 g1. putFailedN 4 ((AutoConnSettingsPolicy sampleFromString 4 noSettings 1
      [\<lparr>item_protocol = WIREGUARD, item_ports = [51820]\<rparr>,
       \<lparr>item_protocol = IKEV2, item_ports = [500]\<rparr>] False)\<lparr>bStarted := True\<rparr>) noSettings
         = Some (s1, g1) \<and> isFailed s1)"
proof -
  let ?s = "(AutoConnSettingsPolicy sampleFromString 4 noSettings 1
      [\<lparr>item_protocol = WIREGUARD, item_ports = [51820]\<rparr>,
       \<lparr>item_protocol = IKEV2, item_ports = [500]\<rparr>] False)\<lparr>bStarted := True\<rparr>"
  have plan: "attemps ?s =
     [\<lparr>protocol = WIREGUARD, portMapInd = 0, changeNode = False\<rparr>,
      \<lparr>protocol = IKEV2, portMapInd = 1, changeNode = True\<rparr>,
      \<lparr>protocol = WIREGUARD, portMapInd = 0, changeNode = False\<rparr>,
      \<lparr>protocol = IKEV2, portMapInd = 1, changeNode = True\<rparr>]"
    by (simp add: AutoConnSettingsPolicy_def Let_def localAttempsOf_def markLast_def
      moveLastSuccess_def readLastSuccessProtocol_def isIkev2Protocol_def noSettings_def)
  have h1: "bStarted ?s" by simp
  have h2: "attemps ?s \<noteq> []" by (simp only: plan) simp
  have h3: "curAttempt ?s = 0" by (simp add: AutoConnSettingsPolicy_def Let_def)
  have h4: "\<not> bIsAllFailed ?s" by (simp add: AutoConnSettingsPolicy_def Let_def)
  have len: "length (attemps ?s) = 4" by (simp only: plan) simp
  from C2_failed_after_whole_plan [OF h1 h2 h3 h4, of 3 noSettings]
  have a: "\<exists>s1 g1. putFailedN 3 ?s noSettings = Some (s1, g1) \<and> \<not> isFailed s1"
    by (simp only: len) simp
  from C2_failed_after_whole_plan [OF h1 h2 h3 h4, of 4 noSettings]
  have b: "\<exists>s1 g1. putFailedN 4 ?s noSettings = Some (s1, g1) \<and> isFailed s1"
    by (simp only: len) simp
  from h1 a b show ?thesis by blast
qed

text \<open>
  A proxy and a port map with OpenVPN-UDP only give the empty plan, of length 0. After 0
  calls \<open>isFailed\<close> is false, and a call reads \<open>attemps_[0]\<close> outside the vector.
\<close>

theorem C2_empty_plan_counterexample:
  "length (attemps ((AutoConnSettingsPolicy sampleFromString 4 noSettings 1
      [\<lparr>item_protocol = OPENVPN_UDP, item_ports = [443]\<rparr>] True)\<lparr>bStarted := True\<rparr>)) = 0
   \<and> \<not> isFailed ((AutoConnSettingsPolicy sampleFromString 4 noSettings 1
      [\<lparr>item_protocol = OPENVPN_UDP, item_ports = [443]\<rparr>] True)\<lparr>bStarted := True\<rparr>)
   \<and> putFailedN 0 ((AutoConnSettingsPolicy sampleFromString 4 noSettings 1
      [\<lparr>item_protocol = OPENVPN_UDP, item_ports = [443]\<rparr>] True)\<lparr>bStarted := True\<rparr>) noSettings
       = Some ((AutoConnSettingsPolicy sampleFromString 4 noSettings 1
      [\<lparr>item_protocol = OPENVPN_UDP, item_ports = [443]\<rparr>] True)\<lparr>bStarted := True\<rparr>, noSettings)
   \<and> putFailedConnection ((AutoConnSettingsPolicy sampleFromString 4 noSettings 1
      [\<lparr>item_protocol = OPENVPN_UDP, item_ports = [443]\<rparr>] True)\<lparr>bStarted := True\<rparr>) noSettings
       = None"
  by (simp add: AutoConnSettingsPolicy_def Let_def localAttempsOf_def markLast_def
      moveLastSuccess_def readLastSuccessProtocol_def noSettings_def isFailed_def
      putFailedConnection_def)

subsection \<open>What a success stores\<close>

text \<open>
  C5 (as the code has it). When \<open>saveCurrentSuccessfullConnectionSettings\<close> returns, the
  settings differ from before in the key \<open>successConnectionProtocol\<close> only, which holds the
  string of the current protocol; a different value of the IKEv2 failure counter gives the
  same settings, so the counter is not stored; and a process that starts on these settings
  has the counter 0.
\<close>

theorem C5_only_protocol_saved:
  assumes "saveCurrentSuccessfullConnectionSettings toLongString s g = Some g1"
  shows "settings g1 = (settings g)(''successConnectionProtocol'' \<mapsto>
             toLongString (protocol (attemps s ! curAttempt s)))
       \<and> saveCurrentSuccessfullConnectionSettings toLongString s
             (g\<lparr>failedIkev2Counter := c\<rparr>) = Some (g1\<lparr>failedIkev2Counter :=
                 (if isIkev2Protocol (protocol (attemps s ! curAttempt s)) then 0 else c)\<rparr>)
       \<and> failedIkev2Counter (processStart (settings g1)) = 0"
  using assms
  by (auto simp: saveCurrentSuccessfullConnectionSettings_def Let_def processStart_def
      split: if_splits)

theorem C5_only_protocol_saved_witness:
  "saveCurrentSuccessfullConnectionSettings sampleToLongString
      \<lparr>attemps = [\<lparr>protocol = IKEV2, portMapInd = 0, changeNode = True\<rparr>], curAttempt = 0,
       bIsAllFailed = False, isFailedIkev2CounterAlreadyIncremented = True,
       portMap = [\<lparr>item_protocol = IKEV2, item_ports = [500]\<rparr>], bStarted = True,
       nodesCount = 1, selectNextNodeCalls = 0\<rparr>
      \<lparr>failedIkev2Counter = 3, settings = Map.empty\<rparr>
     = Some \<lparr>failedIkev2Counter = 0, settings = [''successConnectionProtocol'' \<mapsto> ''IKEv2'']\<rparr>
   \<and> failedIkev2Counter (processStart [''successConnectionProtocol'' \<mapsto> ''IKEv2'']) = 0"
proof -
  let ?s = "\<lparr>attemps = [\<lparr>protocol = IKEV2, portMapInd = 0, changeNode = True\<rparr>], curAttempt = 0,
       bIsAllFailed = False, isFailedIkev2CounterAlreadyIncremented = True,
       portMap = [\<lparr>item_protocol = IKEV2, item_ports = [500]\<rparr>], bStarted = True,
       nodesCount = 1, selectNextNodeCalls = 0\<rparr>"
  let ?g = "\<lparr>failedIkev2Counter = 3, settings = Map.empty\<rparr>"
  let ?g1 = "\<lparr>failedIkev2Counter = 0, settings = [''successConnectionProtocol'' \<mapsto> ''IKEv2'']\<rparr>"
  have h: "saveCurrentSuccessfullConnectionSettings sampleToLongString ?s ?g = Some ?g1"
    by (simp add: saveCurrentSuccessfullConnectionSettings_def Let_def isIkev2Protocol_def
        sampleToLongString_def)
  from C5_only_protocol_saved [OF h, of 0]
  have "failedIkev2Counter (processStart (settings ?g1)) = 0" by blast
  with h show ?thesis by simp
qed

text \<open>
  A WireGuard success with the counter at 2: the settings get the protocol string, the
  counter stays 2 in memory, and the process that starts on these settings has 0.
\<close>

theorem C5_counter_not_persisted_counterexample:
  "saveCurrentSuccessfullConnectionSettings sampleToLongString
      \<lparr>attemps = [\<lparr>protocol = WIREGUARD, portMapInd = 0, changeNode = True\<rparr>], curAttempt = 0,
       bIsAllFailed = False, isFailedIkev2CounterAlreadyIncremented = True,
       portMap = [\<lparr>item_protocol = WIREGUARD, item_ports = [51820]\<rparr>], bStarted = True,
       nodesCount = 1, selectNextNodeCalls = 0\<rparr>
      \<lparr>failedIkev2Counter = 2, settings = Map.empty\<rparr>
     = Some \<lparr>failedIkev2Counter = 2,
             settings = [''successConnectionProtocol'' \<mapsto> ''WireGuard'']\<rparr>
   \<and> failedIkev2Counter (processStart [''successConnectionProtocol'' \<mapsto> ''WireGuard'']) \<noteq> 2"
  by (simp add: saveCurrentSuccessfullConnectionSettings_def Let_def isIkev2Protocol_def
      sampleToLongString_def processStart_def)

subsection \<open>The port of an attempt\<close>

text \<open>
  C6 (as the code has it). Whenever \<open>getCurrentConnectionSettings\<close> resolves an attempt of
  the port map entry e, the port is the first port of that entry, \<open>ports[0]\<close>; every other
  position of the cursor that resolves the same entry gives the same port.
\<close>

theorem C6_first_port_always:
  assumes "getCurrentConnectionSettings getUseIpInd loc s = Some ccd"
    and "portMapInd (attemps s ! curAttempt s) = e"
  shows "port ccd = item_ports (portMap s ! e) ! 0
       \<and> (\<forall>c loc1 ccd1. getCurrentConnectionSettings getUseIpInd loc1 (s\<lparr>curAttempt := c\<rparr>) = Some ccd1
             \<and> portMapInd (attemps s ! c) = e \<longrightarrow> port ccd1 = port ccd)"
  using assms
  by (auto simp: getCurrentConnectionSettings_def Let_def split: if_splits)

theorem C6_first_port_always_witness:
  "getCurrentConnectionSettings sampleUseIpInd sampleLocation
      ((AutoConnSettingsPolicy sampleFromString 4 noSettings 1
          [\<lparr>item_protocol = OPENVPN_TCP, item_ports = [443, 1194]\<rparr>] False)\<lparr>bStarted := True\<rparr>)
     = Some \<lparr>connectionNodeType = CONNECTION_NODE_DEFAULT, ccd_protocol = OPENVPN_TCP,
             port = 443, ip = ''192.0.2.1'', hostname = ''node.example'',
             dnsHostName = ''dns.example'', wgPeerPublicKey = ''key'',
             verifyX509name = ''name'', username = [], password = [], staticIpPorts = []\<rparr>
   \<and> item_ports ([\<lparr>item_protocol = OPENVPN_TCP, item_ports = [443, 1194]\<rparr>] ! 0) ! 0 = 443"
proof -
  let ?s = "(AutoConnSettingsPolicy sampleFromString 4 noSettings 1
          [\<lparr>item_protocol = OPENVPN_TCP, item_ports = [443, 1194]\<rparr>] False)\<lparr>bStarted := True\<rparr>"
  let ?ccd = "\<lparr>connectionNodeType = CONNECTION_NODE_DEFAULT, ccd_protocol = OPENVPN_TCP,
             port = 443, ip = ''192.0.2.1'', hostname = ''node.example'',
             dnsHostName = ''dns.example'', wgPeerPublicKey = ''key'',
             verifyX509name = ''name'', username = [], password = [], staticIpPorts = []\<rparr>"
  have h: "getCurrentConnectionSettings sampleUseIpInd sampleLocation ?s = Some ?ccd"
    by (simp add: getCurrentConnectionSettings_def AutoConnSettingsPolicy_def Let_def
        localAttempsOf_def markLast_def moveLastSuccess_def readLastSuccessProtocol_def
        isIkev2Protocol_def noSettings_def sampleLocation_def sampleUseIpInd_def)
  have pm: "portMap ?s = [\<lparr>item_protocol = OPENVPN_TCP, item_ports = [443, 1194]\<rparr>]"
    by (simp add: AutoConnSettingsPolicy_def Let_def)
  have e: "portMapInd (attemps ?s ! curAttempt ?s) = 0"
    by (simp add: AutoConnSettingsPolicy_def Let_def localAttempsOf_def markLast_def
        moveLastSuccess_def readLastSuccessProtocol_def isIkev2Protocol_def noSettings_def)
  from C6_first_port_always [OF h e]
  have "port ?ccd = item_ports (portMap ?s ! 0) ! 0" by blast
  then have "item_ports ([\<lparr>item_protocol = OPENVPN_TCP, item_ports = [443, 1194]\<rparr>] ! 0) ! 0 = 443"
    by (simp only: pm) simp
  with h show ?thesis by blast
qed

text \<open>
  The entry OpenVPN-TCP with the ports 443 and 1194: the first attempt resolves port 443,
  and after a failure the next attempt of the same entry resolves port 443 again, not 1194.
\<close>

theorem C6_successive_ports_counterexample:
  "map_option port (getCurrentConnectionSettings sampleUseIpInd sampleLocation
      ((AutoConnSettingsPolicy sampleFromString 4 noSettings 1
          [\<lparr>item_protocol = OPENVPN_TCP, item_ports = [443, 1194]\<rparr>] False)\<lparr>bStarted := True\<rparr>))
     = Some 443
   \<and> map_option (curAttempt \<circ> fst) (putFailedConnection
      ((AutoConnSettingsPolicy sampleFromString 4 noSettings 1
          [\<lparr>item_protocol = OPENVPN_TCP, item_ports = [443, 1194]\<rparr>] False)\<lparr>bStarted := True\<rparr>)
      noSettings) = Some 1
   \<and> map_option port (getCurrentConnectionSettings sampleUseIpInd sampleLocation
      (fst (the (putFailedConnection
        ((AutoConnSettingsPolicy sampleFromString 4 noSettings 1
          [\<lparr>item_protocol = OPENVPN_TCP, item_ports = [443, 1194]\<rparr>] False)\<lparr>bStarted := True\<rparr>)
        noSettings))))
     = Some 443"
  by (simp add: getCurrentConnectionSettings_def putFailedConnection_def
      AutoConnSettingsPolicy_def Let_def localAttempsOf_def markLast_def moveLastSuccess_def
      readLastSuccessProtocol_def isIkev2Protocol_def noSettings_def sampleLocation_def
      sampleUseIpInd_def)


section \<open>Properties of the tunnel health prober\<close>

subsection \<open>The default timeouts\<close>












subsection \<open>An attempt count of 0\<close>

lemma startTestImpl_skipped:
  assumes "tunnelTestAttempts cfg = Some 0"
  shows "startTestImpl cfg t1 t3 now s =
     Some (s\<lparr>timeouts := [], doCustomTunnelTest := True,
             timers := timers s @ [(1, OnTestsSkipped)]\<rparr>)"
  using assms by (simp add: startTestImpl_def Let_def)

text \<open>
  C10. Let the override configuration give 0 attempts, and let no timer be pending. Then
  \<open>startTests\<close> returns without a probe and without a signal; once the pending timers have
  fired (the start delay, if one is configured, and the timer for \<open>onTestsSkipped\<close>), still
  no probe has been issued and exactly one result has been emitted, success with an empty
  payload.
\<close>

theorem C10_zero_attempts_skips_tests:
  assumes "tunnelTestAttempts cfg = Some 0" and "timers s = []"
  shows "\<exists>s1 s2. startTests cfg t1 t3 p now s = Some s1 \<and>
           pingTestCalls s1 = pingTestCalls s \<and> testsFinished s1 = testsFinished s \<and>
           fireTimers cfg t1 t3 2 now s1 = Some s2 \<and> timers s2 = [] \<and>
           pingTestCalls s2 = pingTestCalls s \<and>
           testsFinished s2 = testsFinished s @ [(True, [])]"
proof (cases "tunnelTestStartDelay cfg")
  case None
  define s1 where "s1 = (stopTests s)\<lparr>proberProtocol := p, timeouts := [],
      doCustomTunnelTest := True, timers := [(1, OnTestsSkipped)]\<rparr>"
  have a: "startTests cfg t1 t3 p now s = Some s1"
    using None assms(2)
    by (simp add: startTests_def startTestImpl_skipped [OF assms(1)] s1_def stopTests_def)
  have b: "fireTimers cfg t1 t3 2 now s1 =
      Some ((s1\<lparr>timers := []\<rparr>)\<lparr>testsFinished := testsFinished s1 @ [(True, [])]\<rparr>)"
    by (simp add: numeral_2_eq_2 s1_def fireSlot_def onTestsSkipped_def)
  have c: "pingTestCalls s1 = pingTestCalls s" "testsFinished s1 = testsFinished s"
    by (simp_all add: s1_def stopTests_def)
  from a b c show ?thesis by simp
next
  case (Some delay)
  define s1 where "s1 = (stopTests s)\<lparr>proberProtocol := p, timers := [(delay, StartTestImpl)]\<rparr>"
  have a: "startTests cfg t1 t3 p now s = Some s1"
    using Some assms(2) by (simp add: startTests_def s1_def stopTests_def)
  have b: "fireTimers cfg t1 t3 2 now s1 =
      Some (s1\<lparr>timers := [], timeouts := [], doCustomTunnelTest := True,
               testsFinished := testsFinished s1 @ [(True, [])]\<rparr>)"
    by (simp add: numeral_2_eq_2 s1_def fireSlot_def onTestsSkipped_def
        startTestImpl_skipped [OF assms(1)])
  have c: "pingTestCalls s1 = pingTestCalls s" "testsFinished s1 = testsFinished s"
    by (simp_all add: s1_def stopTests_def)
  from a b c show ?thesis by simp
qed

theorem C10_zero_attempts_skips_tests_witness:
  "tunnelTestAttempts zeroAttempts = Some 0 \<and> timers TestVPNTunnel = []
   \<and> (\<exists>s1 s2. startTests zeroAttempts 2000 8000 WIREGUARD 0 TestVPNTunnel = Some s1 \<and>
           pingTestCalls s1 = [] \<and> testsFinished s1 = [] \<and>
           fireTimers zeroAttempts 2000 8000 2 0 s1 = Some s2 \<and>
           pingTestCalls s2 = [] \<and> testsFinished s2 = [(True, [])])"
proof -
  have h1: "tunnelTestAttempts zeroAttempts = Some 0" by (simp add: zeroAttempts_def)
  have h2: "timers TestVPNTunnel = []" by (simp add: TestVPNTunnel_def)
  from C10_zero_attempts_skips_tests [OF h1 h2, of 2000 8000 WIREGUARD 0]
  obtain s1 s2 where r: "startTests zeroAttempts 2000 8000 WIREGUARD 0 TestVPNTunnel = Some s1"
      "pingTestCalls s1 = pingTestCalls TestVPNTunnel"
      "testsFinished s1 = testsFinished TestVPNTunnel"
      "fireTimers zeroAttempts 2000 8000 2 0 s1 = Some s2"
      "pingTestCalls s2 = pingTestCalls TestVPNTunnel"
      "testsFinished s2 = testsFinished TestVPNTunnel @ [(True, [])]"
    by blast
  have "pingTestCalls s1 = []" "testsFinished s1 = []" "pingTestCalls s2 = []"
      "testsFinished s2 = [(True, [])]"
    using r(2,3,5,6) by (simp_all add: TestVPNTunnel_def)
  with r(1,4)
  have "\<exists>s1 s2. startTests zeroAttempts 2000 8000 WIREGUARD 0 TestVPNTunnel = Some s1 \<and>
           pingTestCalls s1 = [] \<and> testsFinished s1 = [] \<and>
           fireTimers zeroAttempts 2000 8000 2 0 s1 = Some s2 \<and>
           pingTestCalls s2 = [] \<and> testsFinished s2 = [(True, [])]"
    by blast
  with h1 h2 show ?thesis by blast
qed

section \<open>Properties of the WireGuard connection\<close>

text \<open>
  C9. \<open>startDisconnect\<close> on a connection whose thread is not running emits
  \<open>disconnected\<close> when \<open>isDisconnected\<close> holds, in particular when no service is open,
  as for a connection that was constructed and never started.
\<close>

theorem C9_stop_when_not_running:
  "(\<not> running s \<and> isDisconnected query s \<longrightarrow>
      signals (startDisconnect query s) = signals s @ [SigDisconnected])
   \<and> (\<not> running s \<and> \<not> serviceOpen s \<longrightarrow>
      signals (startDisconnect query s) = signals s @ [SigDisconnected])
   \<and> signals (startDisconnect query WireGuardConnection) = [SigDisconnected]"
  by (simp add: startDisconnect_def isDisconnected_def WireGuardConnection_def)

theorem C9_stop_when_not_running_witness:
  "\<not> running WireGuardConnection
   \<and> isDisconnected (Some SERVICE_RUNNING) WireGuardConnection
   \<and> signals (startDisconnect (Some SERVICE_RUNNING) WireGuardConnection) = [SigDisconnected]"
proof -
  have h1: "\<not> running WireGuardConnection" by (simp add: WireGuardConnection_def)
  have h2: "isDisconnected (Some SERVICE_RUNNING) WireGuardConnection"
    by (simp add: isDisconnected_def WireGuardConnection_def)
  from C9_stop_when_not_running [of WireGuardConnection "Some SERVICE_RUNNING"] h1 h2
  have "signals (startDisconnect (Some SERVICE_RUNNING) WireGuardConnection) =
      signals WireGuardConnection @ [SigDisconnected]"
    by blast
  then have "signals (startDisconnect (Some SERVICE_RUNNING) WireGuardConnection) = [SigDisconnected]"
    by (simp add: WireGuardConnection_def)
  with h1 h2 show ?thesis by blast
qed

subsection \<open>The timeout of the automatic mode\<close>

lemma timeoutErrors_append:
  "timeoutErrors (xs @ ys) = timeoutErrors xs + timeoutErrors ys"
  by (simp add: timeoutErrors_def)

lemma onTunnelConnected_errors:
  "timeoutErrors (signals (onTunnelConnected s)) = timeoutErrors (signals s)"
  by (simp add: onTunnelConnected_def timeoutErrors_def)

lemma onGetWireguardStats_errors:
  "timeoutErrors (signals (onGetWireguardStats status s)) = timeoutErrors (signals s)"
  by (simp add: onGetWireguardStats_def onTunnelConnected_def timeoutErrors_def Let_def
      split: option.splits)

lemma onCheckServiceRunning_errors:
  "timeoutErrors (signals (onCheckServiceRunning query s)) = timeoutErrors (signals s)"
  by (simp add: onCheckServiceRunning_def quit_def)

lemma onWireguardHandshakeFailure_signals:
  "signals (onWireguardHandshakeFailure env s) = signals s"
  by (simp add: onWireguardHandshakeFailure_def quit_def Let_def split: option.splits bool.splits)

lemma onGetWireguardLogUpdates_errors:
  "timeoutErrors (signals (onGetWireguardLogUpdates lg s)) = timeoutErrors (signals s)"
  by (simp add: onGetWireguardLogUpdates_def Let_def onWireguardHandshakeFailure_signals
      onTunnelConnected_errors)

lemma startDisconnect_errors:
  "timeoutErrors (signals (startDisconnect query s)) = timeoutErrors (signals s)"
  by (simp add: startDisconnect_def quit_def timeoutErrors_def)

lemma onAutomaticConnectionTimeout_errors:
  "timeoutErrors (signals (onAutomaticConnectionTimeout s)) \<le> timeoutErrors (signals s) + 1"
  by (simp add: onAutomaticConnectionTimeout_def quit_def timeoutErrors_def)

lemma dispatch_errors:
  "dispatch armed e s = (armed1, s1) \<Longrightarrow>
     timeoutErrors (signals s1) + (if armed1 then 1 else 0) \<le>
       timeoutErrors (signals s) + (if armed then 1 else 0)"
proof (cases e)
  case (GetWireguardStats x)
  then show "dispatch armed e s = (armed1, s1) \<Longrightarrow> ?thesis"
    by (auto simp: onGetWireguardStats_errors)
next
  case (CheckServiceRunning x)
  then show "dispatch armed e s = (armed1, s1) \<Longrightarrow> ?thesis"
    by (auto simp: onCheckServiceRunning_errors)
next
  case (GetWireguardLogUpdates x)
  then show "dispatch armed e s = (armed1, s1) \<Longrightarrow> ?thesis"
    by (auto simp: onGetWireguardLogUpdates_errors)
next
  case AutomaticConnectionTimeout
  then show "dispatch armed e s = (armed1, s1) \<Longrightarrow> ?thesis"
    using onAutomaticConnectionTimeout_errors [of s] by (auto split: if_splits)
next
  case (StartDisconnect x)
  then show "dispatch armed e s = (armed1, s1) \<Longrightarrow> ?thesis"
    by (auto simp: startDisconnect_errors)
qed

lemma exec_errors:
  "timeoutErrors (signals (resultState (exec armed evs s))) \<le>
     timeoutErrors (signals s) + (if armed then 1 else 0)"
proof (induction evs arbitrary: armed s)
  case Nil
  then show ?case by (simp add: resultState_def)
next
  case (Cons e evs)
  show ?case
  proof (cases "quitPending s")
    case True
    then show ?thesis by (simp add: resultState_def)
  next
    case False
    obtain armed1 s1 where d: "dispatch armed e s = (armed1, s1)" by (cases "dispatch armed e s")
    have "timeoutErrors (signals (resultState (exec armed1 evs s1))) \<le>
        timeoutErrors (signals s1) + (if armed1 then 1 else 0)" by (rule Cons.IH)
    also have "\<dots> \<le> timeoutErrors (signals s) + (if armed then 1 else 0)"
      by (rule dispatch_errors [OF d])
    finally show ?thesis using False d by simp
  qed
qed

lemma exec_append:
  "exec armed pre s = Waiting armed1 s1 \<Longrightarrow> exec armed (pre @ es) s = exec armed1 es s1"
proof (induction pre arbitrary: armed s)
  case Nil
  then show ?case by (cases es) (auto split: if_splits)
next
  case (Cons e pre)
  then show ?case by (auto split: if_splits prod.splits)
qed

lemma exec_waiting: "exec armed pre s = Waiting armed1 s1 \<Longrightarrow> \<not> quitPending s1"
  by (induction pre arbitrary: armed s) (auto split: if_splits prod.splits)

lemma exec_returned_errors:
  assumes "exec armed evs s = Returned s4 rest"
  shows "timeoutErrors (signals s4) \<le> timeoutErrors (signals s) + 1"
proof -
  have "timeoutErrors (signals (resultState (exec armed evs s))) \<le>
      timeoutErrors (signals s) + (if armed then 1 else 0)" by (rule exec_errors)
  then show ?thesis using assms by (simp add: resultState_def split: if_splits)
qed

lemma runFinish_errors:
  "timeoutErrors (signals (runFinish env b s5)) = timeoutErrors (signals s5)"
  by (simp add: runFinish_def Let_def timeoutErrors_def)

lemma runLoopStart_errors:
  "timeoutErrors (signals (runLoopStart env s)) = timeoutErrors (signals s)"
  by (simp add: runLoopStart_def Let_def onGetWireguardStats_errors onGetWireguardLogUpdates_errors)

lemma onGetWireguardStats_flags:
  "isAutomaticConnectionMode (onGetWireguardStats status s) = isAutomaticConnectionMode s"
  "stopRequested (onGetWireguardStats status s) = stopRequested s"
  "quitCalls (onGetWireguardStats status s) = quitCalls s"
  by (simp_all add: onGetWireguardStats_def onTunnelConnected_def Let_def split: option.splits)

lemma onWireguardHandshakeFailure_flags:
  "isAutomaticConnectionMode (onWireguardHandshakeFailure henv s) = isAutomaticConnectionMode s"
  "stopRequested (onWireguardHandshakeFailure henv s) = stopRequested s"
  by (simp_all add: onWireguardHandshakeFailure_def quit_def Let_def
      split: option.splits bool.splits)

lemma onGetWireguardLogUpdates_flags:
  "isAutomaticConnectionMode (onGetWireguardLogUpdates lg s) = isAutomaticConnectionMode s"
  "stopRequested (onGetWireguardLogUpdates lg s) = stopRequested s"
  by (simp_all add: onGetWireguardLogUpdates_def Let_def onWireguardHandshakeFailure_flags
      onTunnelConnected_def)

lemma runLoopStart_flags:
  "isAutomaticConnectionMode (runLoopStart env s) = isAutomaticConnectionMode s"
  "stopRequested (runLoopStart env s) = stopRequested s"
  by (simp_all add: runLoopStart_def Let_def onGetWireguardLogUpdates_flags
      onGetWireguardStats_flags)

lemma runFinish_quitCalls: "quitCalls (runFinish env b s5) = quitCalls s5"
  by (simp add: runFinish_def Let_def)

lemma runLoop_errors:
  assumes "runLoop env s1 = Some s5"
  shows "timeoutErrors (signals s5) \<le> timeoutErrors (signals s1) + 1"
proof -
  define s3 where "s3 = runLoopStart env s1"
  have e3: "timeoutErrors (signals s3) = timeoutErrors (signals s1)"
    by (simp add: s3_def runLoopStart_errors)
  have loop: "runLoop env s1 =
      (if \<not> stopRequested s3
         then (case exec (isAutomaticConnectionMode s3) (events env) s3 of
                 Returned s4 rest \<Rightarrow> Some (onGetWireguardStats (finalStatus env) s4)
               | Waiting armed s4 \<Rightarrow> None)
       else Some (onGetWireguardStats (finalStatus env) s3))"
    by (simp add: runLoop_def Let_def s3_def)
  show ?thesis
  proof (cases "stopRequested s3")
    case True
    then have "s5 = onGetWireguardStats (finalStatus env) s3" using assms loop by simp
    then show ?thesis using e3 by (simp add: onGetWireguardStats_errors)
  next
    case False
    show ?thesis
    proof (cases "exec (isAutomaticConnectionMode s3) (events env) s3")
      case (Returned s4 rest)
      then have "s5 = onGetWireguardStats (finalStatus env) s4" using assms loop False by simp
      then have "timeoutErrors (signals s5) = timeoutErrors (signals s4)"
        by (simp add: onGetWireguardStats_errors)
      then show ?thesis using exec_returned_errors [OF Returned] e3 by simp
    next
      case (Waiting armed s4)
      then show ?thesis using assms loop False by simp
    qed
  qed
qed

lemma run_started:
  assumes "startWireGuardResult env = EXECUTE_SUCCESS" and "generateConfigFileOk env"
    and "startServiceResult env = ServiceStarted"
  shows "run env s =
      (case runLoop env (s\<lparr>running := True, serviceOpen := True\<rparr>) of
         None \<Rightarrow> None
       | Some s5 \<Rightarrow> Some (runFinish env True s5))"
  using assms by (simp add: run_def Let_def)

lemma run_errors:
  assumes "run env s = Some s2"
  shows "timeoutErrors (signals s2) \<le> timeoutErrors (signals s) + 1"
proof (cases "startWireGuardResult env = EXECUTE_SUCCESS \<and> generateConfigFileOk env")
  case False
  with assms show ?thesis
    by (auto simp: run_def Let_def timeoutErrors_def split: if_splits)
next
  case True
  define s1 where "s1 = (if startServiceResult env = FailedBeforeOpen then s\<lparr>running := True\<rparr>
                      else s\<lparr>running := True, serviceOpen := True\<rparr>)"
  have e1: "timeoutErrors (signals s1) = timeoutErrors (signals s)" by (simp add: s1_def)
  have run_eq: "run env s =
      (case (if startServiceResult env = ServiceStarted then runLoop env s1 else Some s1) of
         None \<Rightarrow> None
       | Some s5 \<Rightarrow> Some (runFinish env (startServiceResult env = ServiceStarted) s5))"
    using True by (simp add: run_def Let_def s1_def)
  show ?thesis
  proof (cases "startServiceResult env = ServiceStarted")
    case started: True
    then obtain s5 where s5: "runLoop env s1 = Some s5" "s2 = runFinish env True s5"
      using assms run_eq by (auto split: option.splits)
    from runLoop_errors [OF s5(1)] show ?thesis
      using e1 by (simp add: s5(2) runFinish_errors)
  next
    case False
    then have "s2 = runFinish env False s1" using assms run_eq by simp
    then show ?thesis using e1 by (simp add: runFinish_errors)
  qed
qed

lemma dispatch_manual_errors:
  "dispatch False e s = (armed1, s1) \<Longrightarrow>
     \<not> armed1 \<and> timeoutErrors (signals s1) = timeoutErrors (signals s)"
  by (cases e)
    (auto simp: onGetWireguardStats_errors onCheckServiceRunning_errors
       onGetWireguardLogUpdates_errors startDisconnect_errors)

lemma exec_manual_same_errors:
  "timeoutErrors (signals (resultState (exec False evs s))) = timeoutErrors (signals s)"
proof (induction evs arbitrary: s)
  case Nil
  then show ?case by (simp add: resultState_def)
next
  case (Cons e evs)
  show ?case
  proof (cases "quitPending s")
    case True
    then show ?thesis by (simp add: resultState_def)
  next
    case False
    obtain armed1 s1 where d: "dispatch False e s = (armed1, s1)"
      by (cases "dispatch False e s")
    from dispatch_manual_errors [OF d]
    have "\<not> armed1" "timeoutErrors (signals s1) = timeoutErrors (signals s)" by simp_all
    then show ?thesis using False d Cons.IH [of s1] by simp
  qed
qed

lemma exec_disarmed: "exec False evs s \<noteq> Waiting True s1"
proof (induction evs arbitrary: s)
  case Nil
  then show ?case by simp
next
  case (Cons e evs)
  show ?case
  proof (cases "quitPending s")
    case True
    then show ?thesis by simp
  next
    case False
    obtain armed1 s2 where d: "dispatch False e s = (armed1, s2)"
      by (cases "dispatch False e s")
    from dispatch_manual_errors [OF d] have "\<not> armed1" by simp
    then show ?thesis using False d Cons.IH [of s2] by simp
  qed
qed

lemma exec_still_armed_errors:
  "exec armed evs s = Waiting True s1 \<Longrightarrow>
     timeoutErrors (signals s1) = timeoutErrors (signals s)"
proof (induction evs arbitrary: armed s)
  case Nil
  then show ?case by (simp split: if_splits)
next
  case (Cons e evs)
  from Cons.prems have idle: "\<not> quitPending s" by (simp split: if_splits)
  obtain armed1 s2 where d: "dispatch armed e s = (armed1, s2)"
    by (cases "dispatch armed e s")
  from Cons.prems idle d have rest: "exec armed1 evs s2 = Waiting True s1" by simp
  then have "armed1" using exec_disarmed [of evs s2 s1] by (cases armed1) simp_all
  then have "e \<noteq> AutomaticConnectionTimeout" using d by (auto split: if_splits)
  then have "timeoutErrors (signals s2) = timeoutErrors (signals s)"
    using d
    by (cases e)
      (auto simp: onGetWireguardStats_errors onCheckServiceRunning_errors
         onGetWireguardLogUpdates_errors startDisconnect_errors)
  then show ?case using Cons.IH [OF rest] by simp
qed

lemma run_manual_errors:
  assumes "\<not> isAutomaticConnectionMode s" and "run env s = Some s2"
  shows "timeoutErrors (signals s2) = timeoutErrors (signals s)"
proof (cases "startWireGuardResult env = EXECUTE_SUCCESS \<and> generateConfigFileOk env
    \<and> startServiceResult env = ServiceStarted")
  case False
  with assms(2) show ?thesis
    by (auto simp: run_def Let_def timeoutErrors_def runFinish_def split: if_splits)
next
  case True
  define sa where "sa = s\<lparr>running := True, serviceOpen := True\<rparr>"
  define s3 where "s3 = runLoopStart env sa"
  have e3: "timeoutErrors (signals s3) = timeoutErrors (signals s)"
    by (simp add: s3_def sa_def runLoopStart_errors)
  have manual: "\<not> isAutomaticConnectionMode s3"
    using assms(1) by (simp add: s3_def sa_def runLoopStart_flags)
  from True assms(2) obtain s5 where s5: "runLoop env sa = Some s5" "s2 = runFinish env True s5"
    by (auto simp: run_started sa_def split: option.splits)
  have loop: "runLoop env sa =
      (if \<not> stopRequested s3
         then (case exec False (events env) s3 of
                 Returned s4 rest \<Rightarrow> Some (onGetWireguardStats (finalStatus env) s4)
               | Waiting armed s4 \<Rightarrow> None)
       else Some (onGetWireguardStats (finalStatus env) s3))"
    using manual by (simp add: runLoop_def Let_def s3_def)
  have "timeoutErrors (signals s5) = timeoutErrors (signals s3)"
  proof (cases "stopRequested s3")
    case True
    then have "s5 = onGetWireguardStats (finalStatus env) s3" using s5(1) loop by simp
    then show ?thesis by (simp add: onGetWireguardStats_errors)
  next
    case False
    show ?thesis
    proof (cases "exec False (events env) s3")
      case (Returned s4 rest)
      then have "s5 = onGetWireguardStats (finalStatus env) s4" using s5(1) loop False by simp
      moreover have "timeoutErrors (signals s4) = timeoutErrors (signals s3)"
        using exec_manual_same_errors [of "events env" s3] Returned by (simp add: resultState_def)
      ultimately show ?thesis by (simp add: onGetWireguardStats_errors)
    next
      case (Waiting armed s4)
      then show ?thesis using s5(1) loop False by simp
    qed
  qed
  then show ?thesis using e3 by (simp add: s5(2) runFinish_errors)
qed

lemma exec_timeout_fires:
  assumes "exec True pre s = Waiting True s1"
  shows "exec True (pre @ AutomaticConnectionTimeout # post) s =
          (if connectedSignalEmited s1 then exec False post s1
           else Returned (s1\<lparr>signals := signals s1 @ [SigError STATE_TIMEOUT_FOR_AUTOMATIC],
                            quitPending := False, quitCalls := quitCalls s1 + 1\<rparr>) post)"
proof -
  have idle: "\<not> quitPending s1" using assms by (rule exec_waiting)
  have "exec True (pre @ AutomaticConnectionTimeout # post) s =
      exec True (AutomaticConnectionTimeout # post) s1"
    using assms by (rule exec_append)
  also have "\<dots> = exec False post (onAutomaticConnectionTimeout s1)"
    using idle by simp
  also have "\<dots> = (if connectedSignalEmited s1 then exec False post s1
           else Returned (s1\<lparr>signals := signals s1 @ [SigError STATE_TIMEOUT_FOR_AUTOMATIC],
                            quitPending := False, quitCalls := quitCalls s1 + 1\<rparr>) post)"
    by (cases post) (simp_all add: onAutomaticConnectionTimeout_def quit_def)
  finally show ?thesis .
qed

lemma run_automatic_timeout:
  assumes ok: "startWireGuardResult env = EXECUTE_SUCCESS" "generateConfigFileOk env"
      "startServiceResult env = ServiceStarted"
    and auto: "isAutomaticConnectionMode s" and go: "\<not> stopRequested s"
    and evs: "events env = pre @ AutomaticConnectionTimeout # post"
    and pre: "exec True pre (runLoopStart env (s\<lparr>running := True, serviceOpen := True\<rparr>)) =
                Waiting True s1"
  shows "run env s =
      (case (if connectedSignalEmited s1 then exec False post s1
             else Returned (s1\<lparr>signals := signals s1 @ [SigError STATE_TIMEOUT_FOR_AUTOMATIC],
                              quitPending := False, quitCalls := quitCalls s1 + 1\<rparr>) post) of
         Returned s4 rest \<Rightarrow>
           Some (runFinish env True (onGetWireguardStats (finalStatus env) s4))
       | Waiting armed s4 \<Rightarrow> None)"
    and "timeoutErrors (signals s1) = timeoutErrors (signals s)"
proof -
  define s3 where "s3 = runLoopStart env (s\<lparr>running := True, serviceOpen := True\<rparr>)"
  have flags: "isAutomaticConnectionMode s3" "\<not> stopRequested s3"
    using auto go by (simp_all add: s3_def runLoopStart_flags)
  have loop: "runLoop env (s\<lparr>running := True, serviceOpen := True\<rparr>) =
      (case exec True (pre @ AutomaticConnectionTimeout # post) s3 of
         Returned s4 rest \<Rightarrow> Some (onGetWireguardStats (finalStatus env) s4)
       | Waiting armed s4 \<Rightarrow> None)"
    using flags by (simp add: runLoop_def Let_def s3_def [symmetric] evs)
  have fires: "exec True (pre @ AutomaticConnectionTimeout # post) s3 =
      (if connectedSignalEmited s1 then exec False post s1
       else Returned (s1\<lparr>signals := signals s1 @ [SigError STATE_TIMEOUT_FOR_AUTOMATIC],
                        quitPending := False, quitCalls := quitCalls s1 + 1\<rparr>) post)"
    using pre unfolding s3_def [symmetric] by (rule exec_timeout_fires)
  show "run env s =
      (case (if connectedSignalEmited s1 then exec False post s1
             else Returned (s1\<lparr>signals := signals s1 @ [SigError STATE_TIMEOUT_FOR_AUTOMATIC],
                              quitPending := False, quitCalls := quitCalls s1 + 1\<rparr>) post) of
         Returned s4 rest \<Rightarrow>
           Some (runFinish env True (onGetWireguardStats (finalStatus env) s4))
       | Waiting armed s4 \<Rightarrow> None)"
    unfolding run_started [OF ok] loop fires
    by (simp split: exec_result.splits)
  have "timeoutErrors (signals s1) = timeoutErrors (signals s3)"
    using pre unfolding s3_def [symmetric] by (rule exec_still_armed_errors)
  then show "timeoutErrors (signals s1) = timeoutErrors (signals s)"
    by (simp add: s3_def runLoopStart_errors)
qed

text \<open>
  C8. Let \<open>run\<close> have started the service in the automatic mode with no stop requested,
  and let the timeout of the single-shot timer reach the event loop after the events
  \<open>pre\<close>, which the loop has handled without returning and which have left it in the
  state \<open>s1\<close>. If no connected signal has been emitted, the run emits the error
  \<open>STATE_TIMEOUT_FOR_AUTOMATIC\<close> and calls \<open>quit()\<close> once: the loop returns, the run ends,
  and its signals hold exactly one such error more than before the run. If the connected
  signal has been emitted, the timeout emits nothing: the loop goes on with the later
  events and the run, when it ends, holds no such error more than before. Whatever the
  events are, a run adds at most one such error, and none in the manual mode.
\<close>

theorem C8_automatic_timeout_once:
  "(startWireGuardResult env = EXECUTE_SUCCESS \<and> generateConfigFileOk env \<and>
    startServiceResult env = ServiceStarted \<and> isAutomaticConnectionMode s \<and>
    \<not> stopRequested s \<and> events env = pre @ AutomaticConnectionTimeout # post \<and>
    exec True pre (runLoopStart env (s\<lparr>running := True, serviceOpen := True\<rparr>)) =
      Waiting True s1 \<longrightarrow>
      (if connectedSignalEmited s1
         then run env s =
                (case exec False post s1 of
                   Returned s4 rest \<Rightarrow>
                     Some (runFinish env True (onGetWireguardStats (finalStatus env) s4))
                 | Waiting armed s4 \<Rightarrow> None) \<and>
              (\<forall>s2. run env s = Some s2 \<longrightarrow>
                 timeoutErrors (signals s2) = timeoutErrors (signals s))
       else (\<exists>s2. run env s = Some s2 \<and>
               s2 = runFinish env True (onGetWireguardStats (finalStatus env)
                      (s1\<lparr>signals := signals s1 @ [SigError STATE_TIMEOUT_FOR_AUTOMATIC],
                          quitPending := False, quitCalls := quitCalls s1 + 1\<rparr>)) \<and>
               timeoutErrors (signals s2) = timeoutErrors (signals s) + 1 \<and>
               quitCalls s2 = quitCalls s1 + 1)))
   \<and> (run env s = Some s3 \<longrightarrow> timeoutErrors (signals s3) \<le> timeoutErrors (signals s) + 1)
   \<and> (\<not> isAutomaticConnectionMode s \<and> run env s = Some s3 \<longrightarrow>
        timeoutErrors (signals s3) = timeoutErrors (signals s))"
proof -
  have fired: "startWireGuardResult env = EXECUTE_SUCCESS \<and> generateConfigFileOk env \<and>
    startServiceResult env = ServiceStarted \<and> isAutomaticConnectionMode s \<and>
    \<not> stopRequested s \<and> events env = pre @ AutomaticConnectionTimeout # post \<and>
    exec True pre (runLoopStart env (s\<lparr>running := True, serviceOpen := True\<rparr>)) =
      Waiting True s1 \<longrightarrow>
      (if connectedSignalEmited s1
         then run env s =
                (case exec False post s1 of
                   Returned s4 rest \<Rightarrow>
                     Some (runFinish env True (onGetWireguardStats (finalStatus env) s4))
                 | Waiting armed s4 \<Rightarrow> None) \<and>
              (\<forall>s2. run env s = Some s2 \<longrightarrow>
                 timeoutErrors (signals s2) = timeoutErrors (signals s))
       else (\<exists>s2. run env s = Some s2 \<and>
               s2 = runFinish env True (onGetWireguardStats (finalStatus env)
                      (s1\<lparr>signals := signals s1 @ [SigError STATE_TIMEOUT_FOR_AUTOMATIC],
                          quitPending := False, quitCalls := quitCalls s1 + 1\<rparr>)) \<and>
               timeoutErrors (signals s2) = timeoutErrors (signals s) + 1 \<and>
               quitCalls s2 = quitCalls s1 + 1))"
  proof (intro impI)
    assume h: "startWireGuardResult env = EXECUTE_SUCCESS \<and> generateConfigFileOk env \<and>
      startServiceResult env = ServiceStarted \<and> isAutomaticConnectionMode s \<and>
      \<not> stopRequested s \<and> events env = pre @ AutomaticConnectionTimeout # post \<and>
      exec True pre (runLoopStart env (s\<lparr>running := True, serviceOpen := True\<rparr>)) =
        Waiting True s1"
    then have ok: "startWireGuardResult env = EXECUTE_SUCCESS" "generateConfigFileOk env"
        "startServiceResult env = ServiceStarted"
      and auto: "isAutomaticConnectionMode s" and go: "\<not> stopRequested s"
      and evs: "events env = pre @ AutomaticConnectionTimeout # post"
      and pre: "exec True pre (runLoopStart env (s\<lparr>running := True, serviceOpen := True\<rparr>)) =
                Waiting True s1"
      by simp_all
    note r = run_automatic_timeout [OF ok auto go evs pre]
    show "if connectedSignalEmited s1
         then run env s =
                (case exec False post s1 of
                   Returned s4 rest \<Rightarrow>
                     Some (runFinish env True (onGetWireguardStats (finalStatus env) s4))
                 | Waiting armed s4 \<Rightarrow> None) \<and>
              (\<forall>s2. run env s = Some s2 \<longrightarrow>
                 timeoutErrors (signals s2) = timeoutErrors (signals s))
       else (\<exists>s2. run env s = Some s2 \<and>
               s2 = runFinish env True (onGetWireguardStats (finalStatus env)
                      (s1\<lparr>signals := signals s1 @ [SigError STATE_TIMEOUT_FOR_AUTOMATIC],
                          quitPending := False, quitCalls := quitCalls s1 + 1\<rparr>)) \<and>
               timeoutErrors (signals s2) = timeoutErrors (signals s) + 1 \<and>
               quitCalls s2 = quitCalls s1 + 1)"
    proof (cases "connectedSignalEmited s1")
      case True
      have run_eq: "run env s =
                (case exec False post s1 of
                   Returned s4 rest \<Rightarrow>
                     Some (runFinish env True (onGetWireguardStats (finalStatus env) s4))
                 | Waiting armed s4 \<Rightarrow> None)"
        using r(1) True by simp
      have "\<forall>s2. run env s = Some s2 \<longrightarrow>
                 timeoutErrors (signals s2) = timeoutErrors (signals s)"
      proof (intro allI impI)
        fix s2 assume res: "run env s = Some s2"
        then obtain s4 rest where ex: "exec False post s1 = Returned s4 rest"
            and s2: "s2 = runFinish env True (onGetWireguardStats (finalStatus env) s4)"
          using run_eq by (auto split: exec_result.splits)
        have "timeoutErrors (signals s4) = timeoutErrors (signals s1)"
          using exec_manual_same_errors [of post s1] ex by (simp add: resultState_def)
        then show "timeoutErrors (signals s2) = timeoutErrors (signals s)"
          using r(2) by (simp add: s2 runFinish_errors onGetWireguardStats_errors)
      qed
      with run_eq True show ?thesis by simp
    next
      case False
      define s2 where "s2 = runFinish env True (onGetWireguardStats (finalStatus env)
                      (s1\<lparr>signals := signals s1 @ [SigError STATE_TIMEOUT_FOR_AUTOMATIC],
                          quitPending := False, quitCalls := quitCalls s1 + 1\<rparr>))"
      have run_eq: "run env s = Some s2" using r(1) False by (simp add: s2_def)
      have cnt: "timeoutErrors (signals s2) = timeoutErrors (signals s) + 1"
        using r(2)
        by (simp add: s2_def runFinish_errors onGetWireguardStats_errors timeoutErrors_append)
          (simp add: timeoutErrors_def)
      have q: "quitCalls s2 = quitCalls s1 + 1"
        by (simp add: s2_def runFinish_quitCalls onGetWireguardStats_flags)
      from run_eq cnt q False show ?thesis using s2_def by simp
    qed
  qed
  have bound: "run env s = Some s3 \<longrightarrow> timeoutErrors (signals s3) \<le> timeoutErrors (signals s) + 1"
    using run_errors by blast
  have manual: "\<not> isAutomaticConnectionMode s \<and> run env s = Some s3 \<longrightarrow>
        timeoutErrors (signals s3) = timeoutErrors (signals s)"
    using run_manual_errors by blast
  from fired bound manual show ?thesis by (intro conjI)
qed

text \<open>
  A connection started in the automatic mode: in the first run the timeout comes before
  any connected signal, in the second after the log has shown the tunnel up.
\<close>

theorem C8_automatic_timeout_once_witness:
  "isAutomaticConnectionMode (startConnect threadReturned True WireGuardConnection)
   \<and> \<not> stopRequested (startConnect threadReturned True WireGuardConnection)
   \<and> run timeoutRun (startConnect threadReturned True WireGuardConnection) =
       Some \<lparr>running = False, stopRequested = False, connectedSignalEmited = False,
             isAutomaticConnectionMode = True, serviceOpen = False, requestsBlocked = False,
             quitPending = False, quitCalls = 1,
             signals = [SigError STATE_TIMEOUT_FOR_AUTOMATIC, SigDisconnected]\<rparr>
   \<and> run connectedRun (startConnect threadReturned True WireGuardConnection) =
       Some \<lparr>running = False, stopRequested = True, connectedSignalEmited = True,
             isAutomaticConnectionMode = True, serviceOpen = False, requestsBlocked = True,
             quitPending = False, quitCalls = 1,
             signals = [SigConnected, SigDisconnected]\<rparr>"
proof -
  let ?s = "startConnect threadReturned True WireGuardConnection"
  let ?w = "?s\<lparr>running := True, serviceOpen := True\<rparr>"
  have s_eq: "?s = \<lparr>running = True, stopRequested = False, connectedSignalEmited = False,
             isAutomaticConnectionMode = True, serviceOpen = False, requestsBlocked = False,
             quitPending = False, quitCalls = 0, signals = []\<rparr>"
    by (simp add: startConnect_def WireGuardConnection_def Let_def)
  have a1: "isAutomaticConnectionMode ?s" and a2: "\<not> stopRequested ?s"
    by (simp_all add: s_eq)
  have start1: "runLoopStart timeoutRun ?w = ?w"
    by (simp add: runLoopStart_def Let_def timeoutRun_def quietLog_def s_eq
        onGetWireguardLogUpdates_def onGetWireguardStats_def)
  have start2: "runLoopStart connectedRun ?w = ?w"
    by (simp add: runLoopStart_def Let_def connectedRun_def quietLog_def s_eq
        onGetWireguardLogUpdates_def onGetWireguardStats_def)
  have pre1: "exec True [GetWireguardStats None] (runLoopStart timeoutRun ?w) = Waiting True ?w"
    by (simp only: start1) (simp add: s_eq onGetWireguardStats_def)
  have pre2: "exec True [GetWireguardLogUpdates tunnelUpLog] (runLoopStart connectedRun ?w) =
      Waiting True (onTunnelConnected ?w)"
    by (simp only: start2)
      (simp add: s_eq onGetWireguardLogUpdates_def tunnelUpLog_def onTunnelConnected_def Let_def)
  have ev1: "events timeoutRun =
      [GetWireguardStats None] @ AutomaticConnectionTimeout # [CheckServiceRunning None]"
    by (simp add: timeoutRun_def)
  have ev2: "events connectedRun =
      [GetWireguardLogUpdates tunnelUpLog] @ AutomaticConnectionTimeout # [StartDisconnect None]"
    by (simp add: connectedRun_def)
  have ok1: "startWireGuardResult timeoutRun = EXECUTE_SUCCESS \<and> generateConfigFileOk timeoutRun \<and>
      startServiceResult timeoutRun = ServiceStarted"
    by (simp add: timeoutRun_def)
  have ok2: "startWireGuardResult connectedRun = EXECUTE_SUCCESS \<and>
      generateConfigFileOk connectedRun \<and> startServiceResult connectedRun = ServiceStarted"
    by (simp add: connectedRun_def)
  have hyp1: "startWireGuardResult timeoutRun = EXECUTE_SUCCESS \<and> generateConfigFileOk timeoutRun \<and>
    startServiceResult timeoutRun = ServiceStarted \<and> isAutomaticConnectionMode ?s \<and>
    \<not> stopRequested ?s \<and>
    events timeoutRun =
      [GetWireguardStats None] @ AutomaticConnectionTimeout # [CheckServiceRunning None] \<and>
    exec True [GetWireguardStats None] (runLoopStart timeoutRun ?w) = Waiting True ?w"
    using ok1 a1 a2 ev1 pre1 by blast
  have hyp2: "startWireGuardResult connectedRun = EXECUTE_SUCCESS \<and>
    generateConfigFileOk connectedRun \<and>
    startServiceResult connectedRun = ServiceStarted \<and> isAutomaticConnectionMode ?s \<and>
    \<not> stopRequested ?s \<and>
    events connectedRun =
      [GetWireguardLogUpdates tunnelUpLog] @ AutomaticConnectionTimeout # [StartDisconnect None] \<and>
    exec True [GetWireguardLogUpdates tunnelUpLog] (runLoopStart connectedRun ?w) =
      Waiting True (onTunnelConnected ?w)"
    using ok2 a1 a2 ev2 pre2 by blast
  have nc: "\<not> connectedSignalEmited ?w" by (simp add: s_eq)
  have c: "connectedSignalEmited (onTunnelConnected ?w)" by (simp add: onTunnelConnected_def)
  from C8_automatic_timeout_once [where env = timeoutRun and s = ?s
      and pre = "[GetWireguardStats None]" and post = "[CheckServiceRunning None]" and ?s1.0 = ?w,
      THEN conjunct1, rule_format, OF hyp1]
  have "\<exists>s2. run timeoutRun ?s = Some s2 \<and>
      s2 = runFinish timeoutRun True (onGetWireguardStats (finalStatus timeoutRun)
             (?w\<lparr>signals := signals ?w @ [SigError STATE_TIMEOUT_FOR_AUTOMATIC],
                  quitPending := False, quitCalls := quitCalls ?w + 1\<rparr>)) \<and>
      timeoutErrors (signals s2) = timeoutErrors (signals ?s) + 1 \<and>
      quitCalls s2 = quitCalls ?w + 1"
    using nc by (simp only: if_False)
  then have r1: "run timeoutRun ?s =
       Some \<lparr>running = False, stopRequested = False, connectedSignalEmited = False,
             isAutomaticConnectionMode = True, serviceOpen = False, requestsBlocked = False,
             quitPending = False, quitCalls = 1,
             signals = [SigError STATE_TIMEOUT_FOR_AUTOMATIC, SigDisconnected]\<rparr>"
    by (auto simp: s_eq runFinish_def Let_def timeoutRun_def onGetWireguardStats_def)
  from C8_automatic_timeout_once [where env = connectedRun and s = ?s
      and pre = "[GetWireguardLogUpdates tunnelUpLog]" and post = "[StartDisconnect None]"
      and ?s1.0 = "onTunnelConnected ?w", THEN conjunct1, rule_format, OF hyp2]
  have "run connectedRun ?s =
      (case exec False [StartDisconnect None] (onTunnelConnected ?w) of
         Returned s4 rest \<Rightarrow>
           Some (runFinish connectedRun True (onGetWireguardStats (finalStatus connectedRun) s4))
       | Waiting armed s4 \<Rightarrow> None)"
    using c by (simp only: if_True)
  then have r2: "run connectedRun ?s =
       Some \<lparr>running = False, stopRequested = True, connectedSignalEmited = True,
             isAutomaticConnectionMode = True, serviceOpen = False, requestsBlocked = True,
             quitPending = False, quitCalls = 1,
             signals = [SigConnected, SigDisconnected]\<rparr>"
    by (simp add: s_eq runFinish_def Let_def connectedRun_def onGetWireguardStats_def
        onTunnelConnected_def startDisconnect_def quit_def)
  from a1 a2 r1 r2 show ?thesis by (intro conjI)
qed

end
